theory Spec2Isabelle
  imports Complex_Main
begin

section \<open>Data model of backtest.py\<close>

text \<open>
  The program keeps one CSV file of daily candles per market, extends it from the Upbit
  candle API, and draws a histogram of the percent returns. The embedding keeps the two
  columns the program reads: \<open>candle_date_time_kst\<close> and \<open>trade_price\<close>.
  Timestamps are integers (any totally ordered clock will do), prices are real numbers:
  the finite values of a float column are idealised as reals, and the three special
  values a float column can hold are kept apart.
\<close>

type_synonym timestamp = int

record candle =
  candle_date_time_kst :: timestamp
  trade_price :: real

datatype float64 = NaN | PosInf | NegInf | Finite real

text \<open>
  A DataFrame is its rows plus the optional \<open>return\<close> column that the analysis adds.
  \<open>pd.DataFrame()\<close> is the frame with no rows; the program tests it with \<open>.empty\<close>
  only.
\<close>

record dataframe =
  rows :: "candle list"
  return_col :: "float64 list option"

definition DataFrame :: "candle list \<Rightarrow> dataframe" where
  "DataFrame rs = \<lparr>rows = rs, return_col = None\<rparr>"

definition empty :: "dataframe \<Rightarrow> bool" where
  "empty df = (rows df = [])"

datatype error = AttributeError | ValueError | OverflowError

section \<open>The outside world: candle source, files, console, clock\<close>

record 'a response =
  status_code :: int
  json :: 'a

record market_entry =
  market :: string
  korean_name :: string

datatype request =
    MarketAll
  | CandlesDays string nat "timestamp option"

datatype message =
    FailedCoinList int
  | NoDataReturned string
  | RateLimitExceeded string
  | FailedToFetch string int
  | NoSavedData string
  | Updating string
  | FetchingAll string
  | NoNewData string
  | Updated string

datatype event =
    Get request
  | Sleep nat
  | Print message
  | ToCsv string

text \<open>
  \<open>requests.get\<close> is answered by the upstream: the answer may depend on the URL and on
  how many requests were made before (\<open>calls\<close>). \<open>files\<close> is the working directory,
  \<open>log\<close> the trace of everything the program did to the outside, oldest first.
\<close>

record world =
  market_all :: "nat \<Rightarrow> market_entry list response"
  candles_days :: "string \<Rightarrow> nat \<Rightarrow> timestamp option \<Rightarrow> nat \<Rightarrow> candle list response"
  calls :: nat
  files :: "string \<rightharpoonup> candle list"
  log :: "event list"

definition emit :: "event \<Rightarrow> world \<Rightarrow> world" where
  "emit e w = w\<lparr>log := log w @ [e]\<rparr>"

definition get_market_all :: "world \<Rightarrow> market_entry list response \<times> world" where
  "get_market_all w =
     (market_all w (calls w), emit (Get MarketAll) (w\<lparr>calls := Suc (calls w)\<rparr>))"

definition get_candles_days ::
  "string \<Rightarrow> nat \<Rightarrow> timestamp option \<Rightarrow> world \<Rightarrow> candle list response \<times> world" where
  "get_candles_days m count to w =
     (candles_days w m count to (calls w),
      emit (Get (CandlesDays m count to)) (w\<lparr>calls := Suc (calls w)\<rparr>))"

section \<open>Fetching\<close>

text \<open>\<open>coin.split(' ')[0]\<close>: the text before the first blank.\<close>

definition market_of :: "string \<Rightarrow> string" where
  "market_of coin = takeWhile (\<lambda>c. c \<noteq> CHR '' '') coin"

definition file_name :: "string \<Rightarrow> string" where
  "file_name coin = market_of coin @ ''_data.csv''"

definition fetch_coin_list :: "world \<Rightarrow> string list \<times> world" where
  "fetch_coin_list w =
     (let (response, w1) = get_market_all w in
      if status_code response = 200 then
        ([market coin @ '' ('' @ korean_name coin @ '')''.
            coin \<leftarrow> json response, take 3 (market coin) = ''KRW''], w1)
      else ([], emit (Print (FailedCoinList (status_code response))) w1))"

text \<open>
  The \<open>while retries > 0\<close> loop of \<open>fetch_historical_data\<close>, by recursion on
  \<open>retries\<close>. When the loop runs out the Python function ends without a \<open>return\<close>
  statement, so its value is \<open>None\<close>: here the result \<open>None\<close>, as opposed to
  \<open>Some\<close> frame.
\<close>

fun fetch_loop ::
  "string \<Rightarrow> nat \<Rightarrow> timestamp option \<Rightarrow> nat \<Rightarrow> world \<Rightarrow> dataframe option \<times> world" where
  "fetch_loop coin count to 0 w = (None, w)"
| "fetch_loop coin count to (Suc retries) w =
     (let (response, w1) = get_candles_days (market_of coin) count to w in
      if status_code response = 200 then
        (if json response \<noteq> [] then (Some (DataFrame (rev (json response))), w1)
         else (Some (DataFrame []), emit (Print (NoDataReturned coin)) w1))
      else if status_code response = 429 then
        fetch_loop coin count to retries
          (emit (Sleep 10) (emit (Print (RateLimitExceeded coin)) w1))
      else
        (Some (DataFrame []), emit (Print (FailedToFetch coin (status_code response))) w1))"

definition fetch_historical_data ::
  "string \<Rightarrow> nat \<Rightarrow> timestamp option \<Rightarrow> world \<Rightarrow> dataframe option \<times> world" where
  "fetch_historical_data coin count to w = fetch_loop coin count to 3 w"

section \<open>The series store\<close>

definition load_coin_data :: "string \<Rightarrow> world \<Rightarrow> dataframe \<times> world" where
  "load_coin_data coin w =
     (case files w (file_name coin) of
        Some rs \<Rightarrow> (DataFrame rs, w)
      | None \<Rightarrow> (DataFrame [], emit (Print (NoSavedData coin)) w))"

definition save_coin_data :: "string \<Rightarrow> dataframe \<Rightarrow> world \<Rightarrow> world" where
  "save_coin_data coin df w =
     emit (ToCsv (file_name coin)) (w\<lparr>files := (files w)(file_name coin \<mapsto> rows df)\<rparr>)"

section \<open>Synchronisation\<close>

text \<open>\<open>Series.max()\<close> of a column with at least one entry.\<close>

definition column_max :: "timestamp list \<Rightarrow> timestamp" where
  "column_max ts = foldl max (hd ts) (tl ts)"

text \<open>
  Lines 86 to 91 of \<open>update_all_coins\<close>, shared by both branches. \<open>new_data.empty\<close>
  on \<open>None\<close> raises AttributeError.
\<close>

definition save_if_new ::
  "string \<Rightarrow> dataframe \<Rightarrow> dataframe option \<Rightarrow> world \<Rightarrow> error option \<times> world" where
  "save_if_new coin existing_data new_data w =
     (case new_data of
        None \<Rightarrow> (Some AttributeError, w)
      | Some nd \<Rightarrow>
          if \<not> empty nd then
            (None, emit (Print (Updated coin))
               (save_coin_data coin (DataFrame (rows existing_data @ rows nd)) w))
          else (None, emit (Print (NoNewData coin)) w))"

text \<open>
  One iteration of the \<open>for coin in coins\<close> loop. The result is the exception that
  left the loop body, if any, and the world at that point. A frame that is not empty has
  the column \<open>candle_date_time_kst\<close>, so the second half of the test on line 80 never
  decides.
\<close>

definition update_coin :: "string \<Rightarrow> world \<Rightarrow> error option \<times> world" where
  "update_coin coin w =
     (let (existing_data, w1) = load_coin_data coin (emit (Print (Updating coin)) w) in
      if empty existing_data then
        (let (new_data, w2) =
               fetch_historical_data coin 200 None (emit (Print (FetchingAll coin)) w1)
         in save_if_new coin existing_data new_data w2)
      else
        (let last_date = column_max (map candle_date_time_kst (rows existing_data));
             (new_data, w2) = fetch_historical_data coin 200 (Some last_date) w1
         in case new_data of
              None \<Rightarrow> (Some AttributeError, w2)
            | Some nd \<Rightarrow>
                if empty nd then (None, emit (Print (NoNewData coin)) w2)
                else save_if_new coin existing_data
                       (Some (DataFrame
                          (filter (\<lambda>c. candle_date_time_kst c > last_date) (rows nd)))) w2))"

fun update_coins :: "string list \<Rightarrow> world \<Rightarrow> error option \<times> world" where
  "update_coins [] w = (None, w)"
| "update_coins (coin # coins) w =
     (case update_coin coin w of
        (Some e, w1) \<Rightarrow> (Some e, w1)
      | (None, w1) \<Rightarrow> update_coins coins w1)"

definition update_all_coins :: "world \<Rightarrow> error option \<times> world" where
  "update_all_coins w = (let (coins, w1) = fetch_coin_list w in update_coins coins w1)"

text \<open>What the program did to the outside between two worlds, console output left out.\<close>

fun is_print :: "event \<Rightarrow> bool" where
  "is_print (Print m) = True"
| "is_print e = False"

fun is_write :: "event \<Rightarrow> bool" where
  "is_write (ToCsv f) = True"
| "is_write e = False"

definition events_since :: "world \<Rightarrow> world \<Rightarrow> event list" where
  "events_since w w' = drop (length (log w)) (log w')"


definition writes_since :: "world \<Rightarrow> world \<Rightarrow> event list" where
  "writes_since w w' = filter is_write (events_since w w')"

definition stored :: "world \<Rightarrow> string \<Rightarrow> candle list" where
  "stored w coin = (case files w (file_name coin) of Some rs \<Rightarrow> rs | None \<Rightarrow> [])"

text \<open>
  The upstream has nothing newer than what is stored: every candle it will ever return
  for a market is no later than some candle in that market's file.
\<close>

definition no_newer_data :: "world \<Rightarrow> bool" where
  "no_newer_data w =
     (\<forall>coin count to n. \<forall>c \<in> set (json (candles_days w (market_of coin) count to n)).
        \<exists>x \<in> set (stored w coin). candle_date_time_kst c \<le> candle_date_time_kst x)"

text \<open>The world after one attempt of \<open>fetch_historical_data\<close> that was answered 429.\<close>

definition rate_limited_attempt :: "string \<Rightarrow> nat \<Rightarrow> timestamp option \<Rightarrow> world \<Rightarrow> world" where
  "rate_limited_attempt coin count to w =
     emit (Sleep 10) (emit (Print (RateLimitExceeded coin))
       (emit (Get (CandlesDays (market_of coin) count to)) (w\<lparr>calls := Suc (calls w)\<rparr>)))"

text \<open>
  Three quantities of one iteration of the loop in \<open>update_all_coins\<close>: the cursor
  passed as \<open>to\<close>, the world at the moment \<open>fetch_historical_data\<close> is called,
  and the rows of the fetched frame that are appended to the stored ones.
\<close>

definition sync_cursor :: "world \<Rightarrow> string \<Rightarrow> timestamp option" where
  "sync_cursor w coin =
     (if stored w coin = [] then None
      else Some (column_max (map candle_date_time_kst (stored w coin))))"

definition before_fetch :: "string \<Rightarrow> world \<Rightarrow> world" where
  "before_fetch coin w =
     (case files w (file_name coin) of
        None \<Rightarrow>
          emit (Print (FetchingAll coin))
            (emit (Print (NoSavedData coin)) (emit (Print (Updating coin)) w))
      | Some rs \<Rightarrow>
          if rs = [] then emit (Print (FetchingAll coin)) (emit (Print (Updating coin)) w)
          else emit (Print (Updating coin)) w)"

definition fresh_rows :: "world \<Rightarrow> string \<Rightarrow> dataframe \<Rightarrow> candle list" where
  "fresh_rows w coin nd =
     (if stored w coin = [] then rows nd
      else filter (\<lambda>c. candle_date_time_kst c >
                         column_max (map candle_date_time_kst (stored w coin))) (rows nd))"

section \<open>Float columns\<close>

text \<open>
  Division of two floats: a finite quotient is the real quotient, division by zero gives
  an infinity or NaN as numpy does (with a warning, not an exception).
\<close>

fun fl_divide :: "float64 \<Rightarrow> float64 \<Rightarrow> float64" where
  "fl_divide (Finite x) (Finite y) =
     (if y \<noteq> 0 then Finite (x / y)
      else if x = 0 then NaN else if 0 < x then PosInf else NegInf)"
| "fl_divide NaN y = NaN"
| "fl_divide x NaN = NaN"
| "fl_divide PosInf (Finite y) = (if 0 \<le> y then PosInf else NegInf)"
| "fl_divide NegInf (Finite y) = (if 0 \<le> y then NegInf else PosInf)"
| "fl_divide (Finite x) y = Finite 0"
| "fl_divide x y = NaN"

fun fl_plus :: "float64 \<Rightarrow> real \<Rightarrow> float64" where
  "fl_plus (Finite x) c = Finite (x + c)"
| "fl_plus v c = v"

fun fl_times :: "float64 \<Rightarrow> real \<Rightarrow> float64" where
  "fl_times (Finite x) c = Finite (x * c)"
| "fl_times NaN c = NaN"
| "fl_times PosInf c = (if 0 < c then PosInf else if c < 0 then NegInf else NaN)"
| "fl_times NegInf c = (if 0 < c then NegInf else if c < 0 then PosInf else NaN)"

text \<open>\<open>ffill\<close>: a missing value takes the last value seen before it.\<close>

fun ffill_from :: "float64 \<Rightarrow> float64 list \<Rightarrow> float64 list" where
  "ffill_from prev [] = []"
| "ffill_from prev (NaN # xs) = prev # ffill_from prev xs"
| "ffill_from prev (x # xs) = x # ffill_from x xs"

definition ffill :: "float64 list \<Rightarrow> float64 list" where
  "ffill xs = ffill_from NaN xs"

text \<open>
  \<open>pct_change()\<close> with the default \<open>fill_method='pad'\<close>: the column is forward
  filled, then divided by itself shifted one row down, minus one. The first entry has no
  predecessor and is NaN.
\<close>

definition pct_change :: "float64 list \<Rightarrow> float64 list" where
  "pct_change xs =
     (let data = ffill xs in
      case data of
        [] \<Rightarrow> []
      | x # rest \<Rightarrow> NaN # map (\<lambda>(prev, cur). fl_plus (fl_divide cur prev) (- 1)) (zip data rest))"

definition times_100 :: "float64 list \<Rightarrow> float64 list" where
  "times_100 xs = map (\<lambda>v. fl_times v 100) xs"

section \<open>Periodic returns\<close>

text \<open>
  The calendar is pandas': \<open>week_of\<close> and \<open>month_of\<close> number the resampling bin
  (the week ending on a Monday, the calendar month) a timestamp falls into.
\<close>

record calendar =
  week_of :: "timestamp \<Rightarrow> int"
  month_of :: "timestamp \<Rightarrow> int"

text \<open>
  \<open>resample(...).last()\<close>: one row for every bin from the first occupied one to the
  last occupied one, holding the last price observed in the bin, NaN for a bin without
  observations.
\<close>

definition resample_last :: "(timestamp \<Rightarrow> int) \<Rightarrow> candle list \<Rightarrow> float64 list" where
  "resample_last bin rs =
     (if rs = [] then []
      else
        (let bs = map (\<lambda>c. bin (candle_date_time_kst c)) rs in
         map (\<lambda>b. case filter (\<lambda>c. bin (candle_date_time_kst c) = b) rs of
                     [] \<Rightarrow> NaN
                   | c # cs \<Rightarrow> Finite (trade_price (last (c # cs))))
             [foldl min (hd bs) (tl bs) .. foldl max (hd bs) (tl bs)]))"

datatype pandas = Frame dataframe | Series "float64 list" | PyNone

definition daily_returns :: "dataframe \<Rightarrow> float64 list" where
  "daily_returns df = times_100 (pct_change (map (\<lambda>c. Finite (trade_price c)) (rows df)))"

text \<open>
  \<open>analyze_periodic_distribution\<close> assigns to \<open>df['return']\<close> before it looks at
  the period, so it has an effect on its argument: the result is the returned value
  together with the caller's frame after the call.
\<close>

definition analyze_periodic_distribution ::
  "calendar \<Rightarrow> dataframe \<Rightarrow> string \<Rightarrow> pandas \<times> dataframe" where
  "analyze_periodic_distribution cal df period =
     (let df1 = df\<lparr>return_col := Some (daily_returns df)\<rparr> in
      if period = ''daily'' then (Frame df1, df1)
      else if period = ''weekly'' then
        (Series (times_100 (pct_change (resample_last (week_of cal) (rows df1)))), df1)
      else if period = ''monthly'' then
        (Series (times_100 (pct_change (resample_last (month_of cal) (rows df1)))), df1)
      else (PyNone, df1))"

section \<open>Distribution\<close>

text \<open>\<open>math.floor\<close> and \<open>math.ceil\<close> of a float.\<close>

fun math_floor :: "float64 \<Rightarrow> error + int" where
  "math_floor (Finite x) = Inr \<lfloor>x\<rfloor>"
| "math_floor NaN = Inl ValueError"
| "math_floor v = Inl OverflowError"

fun math_ceil :: "float64 \<Rightarrow> error + int" where
  "math_ceil (Finite x) = Inr \<lceil>x\<rceil>"
| "math_ceil NaN = Inl ValueError"
| "math_ceil v = Inl OverflowError"

text \<open>\<open>Series.min()\<close> and \<open>Series.max()\<close> skip NaN; of nothing they are NaN.\<close>

definition finite_values :: "float64 list \<Rightarrow> real list" where
  "finite_values col = concat (map (\<lambda>v. case v of Finite x \<Rightarrow> [x] | _ \<Rightarrow> []) col)"

definition series_min :: "float64 list \<Rightarrow> float64" where
  "series_min col =
     (if NegInf \<in> set col then NegInf
      else case finite_values col of
             x # xs \<Rightarrow> Finite (foldl min x xs)
           | [] \<Rightarrow> if PosInf \<in> set col then PosInf else NaN)"

definition series_max :: "float64 list \<Rightarrow> float64" where
  "series_max col =
     (if PosInf \<in> set col then PosInf
      else case finite_values col of
             x # xs \<Rightarrow> Finite (foldl max x xs)
           | [] \<Rightarrow> if NegInf \<in> set col then NegInf else NaN)"

text \<open>\<open>np.arange(start, stop, step)\<close>.\<close>

definition np_arange :: "real \<Rightarrow> real \<Rightarrow> real \<Rightarrow> real list" where
  "np_arange start stop step =
     map (\<lambda>i. start + real i * step) [0 ..< nat \<lceil>(stop - start) / step\<rceil>]"

text \<open>
  \<open>np.histogram(a, bins=edges, density=True)\<close> with an array of edges: the edges must
  not decrease; the cumulative count at an edge is the insertion index of the edge in the
  sorted data (to the left of equal values for every edge but the last, to the right for
  the last one), which is the number of values below the edge (at most the edge, for the
  last one). NaN sorts behind everything and is never counted. The counts are the
  differences, the density divides by the bin widths and by the total count.
\<close>

fun below :: "real \<Rightarrow> float64 \<Rightarrow> bool" where
  "below e (Finite x) = (x < e)"
| "below e NegInf = True"
| "below e v = False"

fun at_most :: "real \<Rightarrow> float64 \<Rightarrow> bool" where
  "at_most e (Finite x) = (x \<le> e)"
| "at_most e NegInf = True"
| "at_most e v = False"

definition search_sorted_inclusive :: "float64 list \<Rightarrow> real list \<Rightarrow> int list" where
  "search_sorted_inclusive a v =
     map (\<lambda>e. int (length (filter (below e) a))) (butlast v) @
     map (\<lambda>e. int (length (filter (at_most e) a))) (drop (length v - 1) v)"

definition np_diff :: "'a::minus list \<Rightarrow> 'a list" where
  "np_diff xs = map (\<lambda>(a, b). b - a) (zip xs (tl xs))"

definition np_histogram_density :: "float64 list \<Rightarrow> real list \<Rightarrow> error + float64 list" where
  "np_histogram_density a bin_edges =
     (if list_ex (\<lambda>(l, r). l > r) (zip bin_edges (tl bin_edges)) then Inl ValueError
      else
        (let n = np_diff (search_sorted_inclusive a bin_edges);
             db = np_diff bin_edges
         in Inr (map (\<lambda>(c, d). fl_divide (fl_divide (Finite (real_of_int c)) (Finite d))
                                  (Finite (real_of_int (sum_list n))))
                     (zip n db))))"

text \<open>
  The labels: \<open>f"{b:.0f}%"\<close> for a zero edge and \<open>f"{b:+.0f}%"\<close> otherwise. The
  format rounds to the nearest integer, a tie to the even one, and the sign is the sign
  of the edge itself.
\<close>

definition round_half_even :: "real \<Rightarrow> int" where
  "round_half_even x =
     (let f = \<lfloor>x\<rfloor>; d = x - of_int f in
      if d < 1 / 2 then f else if 1 / 2 < d then f + 1 else if even f then f else f + 1)"

function show_nat :: "nat \<Rightarrow> string" where
  "show_nat n =
     (if n < 10 then [''0123456789'' ! n]
      else show_nat (n div 10) @ [''0123456789'' ! (n mod 10)])"
  by pat_completeness auto
termination
  by (relation "measure id") auto

definition format_label :: "real \<Rightarrow> string" where
  "format_label b =
     (if b = 0 then ''0%''
      else (if 0 < b then ''+'' else ''-'') @ show_nat (nat \<bar>round_half_even b\<bar>) @ ''%'')"

text \<open>
  \<open>calculate_distribution\<close>: a Series (label, percent). \<open>df.columns\<close> exists on a
  DataFrame only.
\<close>

definition calculate_distribution :: "pandas \<Rightarrow> real \<Rightarrow> error + (string \<times> float64) list" where
  "calculate_distribution obj bin_size =
     (case obj of
        Frame df \<Rightarrow>
          (case return_col df of
             None \<Rightarrow> Inr []
           | Some col \<Rightarrow>
               (case math_floor (fl_divide (series_min col) (Finite bin_size)) of
                  Inl e \<Rightarrow> Inl e
                | Inr lo \<Rightarrow>
                    (case math_ceil (fl_divide (series_max col) (Finite bin_size)) of
                       Inl e \<Rightarrow> Inl e
                     | Inr hi \<Rightarrow>
                         (let min_return = of_int lo * bin_size;
                              max_return = of_int hi * bin_size;
                              bins = np_arange min_return (max_return + bin_size) bin_size
                          in case np_histogram_density col bins of
                               Inl e \<Rightarrow> Inl e
                             | Inr distribution \<Rightarrow>
                                 Inr (zip (map format_label (butlast bins))
                                          (map (\<lambda>v. fl_times (fl_times v 100) bin_size)
                                               distribution))))))
      | _ \<Rightarrow> Inl AttributeError)"

section \<open>The histogram in the words of the specification\<close>

text \<open>
  The specification describes the histogram of the values \<open>vs\<close> for the bin width
  \<open>w\<close> by its bounds (floor of min over w, times w; ceiling of max over w, times w),
  its edges (from the lower bound upwards in steps of w) and its bins (half-open, the
  last one closed). These definitions follow those words; the theorems compare them with
  \<open>calculate_distribution\<close>.
\<close>

definition lower_bound :: "real list \<Rightarrow> real \<Rightarrow> real" where
  "lower_bound vs w = of_int \<lfloor>Min (set vs) / w\<rfloor> * w"

definition upper_bound :: "real list \<Rightarrow> real \<Rightarrow> real" where
  "upper_bound vs w = of_int \<lceil>Max (set vs) / w\<rceil> * w"

definition number_of_bins :: "real list \<Rightarrow> real \<Rightarrow> nat" where
  "number_of_bins vs w = nat (\<lceil>Max (set vs) / w\<rceil> - \<lfloor>Min (set vs) / w\<rfloor>)"

definition edge :: "real list \<Rightarrow> real \<Rightarrow> nat \<Rightarrow> real" where
  "edge vs w i = lower_bound vs w + real i * w"

definition in_bin :: "real list \<Rightarrow> real \<Rightarrow> nat \<Rightarrow> real \<Rightarrow> bool" where
  "in_bin vs w i v =
     (edge vs w i \<le> v \<and>
      (v < edge vs w (Suc i) \<or> (Suc i = number_of_bins vs w \<and> v = edge vs w (Suc i))))"

text \<open>The sum of a list of finite floats.\<close>

definition total_percent :: "(string \<times> float64) list \<Rightarrow> real" where
  "total_percent ds = sum_list (finite_values (map snd ds))"

section \<open>The analysis request\<close>

datatype dialog = InputError | DataNotFound string | PeriodDataNotFound string string

datatype display =
    ShowError dialog
  | BarChart "(string \<times> float64) list"
  | NoDataText

text \<open>\<open>.empty\<close> of what \<open>analyze_periodic_distribution\<close> returned.\<close>

fun pandas_empty :: "pandas \<Rightarrow> error + bool" where
  "pandas_empty (Frame df) = Inr (empty df)"
| "pandas_empty (Series s) = Inr (s = [])"
| "pandas_empty PyNone = Inl AttributeError"

definition analyze_and_visualize ::
  "calendar \<Rightarrow> string \<Rightarrow> string \<Rightarrow> world \<Rightarrow> (error + display) \<times> world" where
  "analyze_and_visualize cal selected_coin selected_period w =
     (if selected_coin = [] \<or> selected_period = [] then (Inr (ShowError InputError), w)
      else
        (let (df, w1) = load_coin_data selected_coin w in
         if empty df then (Inr (ShowError (DataNotFound selected_coin)), w1)
         else
           (let (df2, df1) = analyze_periodic_distribution cal df selected_period in
            case pandas_empty df2 of
              Inl e \<Rightarrow> (Inl e, w1)
            | Inr True \<Rightarrow>
                (Inr (ShowError (PeriodDataNotFound selected_coin selected_period)), w1)
            | Inr False \<Rightarrow>
                (case calculate_distribution df2 1 of
                   Inl e \<Rightarrow> (Inl e, w1)
                 | Inr distribution \<Rightarrow>
                     if distribution \<noteq> [] then (Inr (BarChart distribution), w1)
                     else (Inr NoDataText, w1)))))"

section \<open>Example worlds\<close>

definition day1 :: candle where
  "day1 = \<lparr>candle_date_time_kst = 1, trade_price = 100\<rparr>"

definition day2 :: candle where
  "day2 = \<lparr>candle_date_time_kst = 2, trade_price = 110\<rparr>"

definition day3 :: candle where
  "day3 = \<lparr>candle_date_time_kst = 3, trade_price = 99\<rparr>"

definition no_markets :: "nat \<Rightarrow> market_entry list response" where
  "no_markets n = \<lparr>status_code = 200, json = []\<rparr>"



text \<open>
  Two candles are stored for KRW-BTC and the upstream returns the last stored one again
  together with a newer one.
\<close>

definition overlapping :: world where
  "overlapping =
     \<lparr>market_all = no_markets,
      candles_days = (\<lambda>m count to n. \<lparr>status_code = 200, json = [day3, day2]\<rparr>),
      calls = 0, files = [''KRW-BTC_data.csv'' \<mapsto> [day1, day2]], log = []\<rparr>"

text \<open>
  Two candles are stored for KRW-BTC, the market list names KRW-BTC only, and the upstream
  returns the two stored candles for it and nothing for any other market.
\<close>

definition up_to_date :: world where
  "up_to_date =
     \<lparr>market_all = (\<lambda>n. \<lparr>status_code = 200,
                           json = [\<lparr>market = ''KRW-BTC'', korean_name = ''Bitcoin''\<rparr>]\<rparr>),
      candles_days = (\<lambda>m count to n.
         if m = ''KRW-BTC'' then \<lparr>status_code = 200, json = [day2, day1]\<rparr>
         else \<lparr>status_code = 200, json = []\<rparr>),
      calls = 0, files = [''KRW-BTC_data.csv'' \<mapsto> [day1, day2]], log = []\<rparr>"

text \<open>The same upstream before the first synchronisation: nothing is stored yet.\<close>

definition first_sync :: world where
  "first_sync = up_to_date\<lparr>files := Map.empty\<rparr>"

text \<open>
  Three markets; the upstream answers 429 to every request for the second one and returns
  two candles for the others. Nothing is stored yet.
\<close>

definition one_exhausted :: world where
  "one_exhausted =
     \<lparr>market_all = (\<lambda>n. \<lparr>status_code = 200,
                           json = [\<lparr>market = ''KRW-BTC'', korean_name = ''Bitcoin''\<rparr>,
                                   \<lparr>market = ''KRW-ETH'', korean_name = ''Ethereum''\<rparr>,
                                   \<lparr>market = ''KRW-XRP'', korean_name = ''Ripple''\<rparr>]\<rparr>),
      candles_days = (\<lambda>m count to n.
         if m = ''KRW-ETH'' then \<lparr>status_code = 429, json = []\<rparr>
         else \<lparr>status_code = 200, json = [day2, day1]\<rparr>),
      calls = 0, files = Map.empty, log = []\<rparr>"

text \<open>The same, but the second market is answered with status 500.\<close>

definition one_failed :: world where
  "one_failed =
     one_exhausted\<lparr>candles_days := (\<lambda>m count to n.
         if m = ''KRW-ETH'' then \<lparr>status_code = 500, json = []\<rparr>
         else \<lparr>status_code = 200, json = [day2, day1]\<rparr>)\<rparr>"



text \<open>A store with a single candle for KRW-BTC.\<close>

definition single_candle :: world where
  "single_candle =
     \<lparr>market_all = no_markets,
      candles_days = (\<lambda>m count to n. \<lparr>status_code = 200, json = []\<rparr>),
      calls = 0, files = [''KRW-BTC_data.csv'' \<mapsto> [day1]], log = []\<rparr>"


text \<open>Two candles with the same close.\<close>

definition flat_prices :: dataframe where
  "flat_prices = DataFrame [day1, \<lparr>candle_date_time_kst = 2, trade_price = 100\<rparr>]"

section \<open>Proofs: the retry loop\<close>

lemma fetch_loop_files: "files (snd (fetch_loop coin count to r w)) = files w"
  by (induction r arbitrary: w)
     (simp_all add: get_candles_days_def emit_def)

lemma fetch_loop_oracle:
  "candles_days (snd (fetch_loop coin count to r w)) = candles_days w"
  by (induction r arbitrary: w)
     (simp_all add: get_candles_days_def emit_def)

lemma rate_limited_attempt_fields [simp]:
  "calls (rate_limited_attempt coin count to w) = Suc (calls w)"
  "candles_days (rate_limited_attempt coin count to w) = candles_days w"
  "market_all (rate_limited_attempt coin count to w) = market_all w"
  "files (rate_limited_attempt coin count to w) = files w"
  "log (rate_limited_attempt coin count to w) =
     log w @ [Get (CandlesDays (market_of coin) count to), Print (RateLimitExceeded coin), Sleep 10]"
  by (simp_all add: rate_limited_attempt_def emit_def)

lemma fetch_loop_429:
  "status_code (candles_days w (market_of coin) count to (calls w)) = 429 \<Longrightarrow>
   fetch_loop coin count to (Suc r) w = fetch_loop coin count to r (rate_limited_attempt coin count to w)"
  by (simp add: get_candles_days_def rate_limited_attempt_def)

lemma fetch_loop_other:
  "status_code (candles_days w (market_of coin) count to (calls w)) \<noteq> 429 \<Longrightarrow>
   \<exists>df ps. fetch_loop coin count to (Suc r) w =
     (Some df, w\<lparr>calls := Suc (calls w),
                  log := log w @ Get (CandlesDays (market_of coin) count to) # map Print ps\<rparr>)"
proof -
  assume a: "status_code (candles_days w (market_of coin) count to (calls w)) \<noteq> 429"
  let ?resp = "candles_days w (market_of coin) count to (calls w)"
  consider (ok) "status_code ?resp = 200" "json ?resp \<noteq> []"
    | (nodata) "status_code ?resp = 200" "json ?resp = []"
    | (failed) "status_code ?resp \<noteq> 200" by blast
  then show ?thesis
  proof cases
    case ok
    then show ?thesis
      by (intro exI[of _ "DataFrame (rev (json ?resp))"] exI[of _ "[]"])
         (simp add: get_candles_days_def emit_def)
  next
    case nodata
    then show ?thesis
      by (intro exI[of _ "DataFrame []"] exI[of _ "[NoDataReturned coin]"])
         (simp add: get_candles_days_def emit_def)
  next
    case failed
    with a show ?thesis
      by (intro exI[of _ "DataFrame []"] exI[of _ "[FailedToFetch coin (status_code ?resp)]"])
         (simp add: get_candles_days_def emit_def)
  qed
qed

lemma filter_map_Print: "filter (\<lambda>e. \<not> is_print e) (map Print ps) = []"
  by (induction ps) simp_all

lemma fetch_loop_trace:
  "\<exists>es n. log (snd (fetch_loop coin count to r w)) = log w @ es \<and> n \<le> r \<and>
     filter (\<lambda>e. \<not> is_print e) es =
       concat (replicate n [Get (CandlesDays (market_of coin) count to), Sleep 10]) @
       (if fst (fetch_loop coin count to r w) = None then []
        else [Get (CandlesDays (market_of coin) count to)]) \<and>
     (fst (fetch_loop coin count to r w) = None \<longleftrightarrow> n = r)"
proof (induction r arbitrary: w)
  case 0
  show ?case by simp
next
  case (Suc r)
  let ?G = "Get (CandlesDays (market_of coin) count to)"
  let ?resp = "candles_days w (market_of coin) count to (calls w)"
  let ?w2 = "rate_limited_attempt coin count to w"
  show ?case
  proof (cases "status_code ?resp = 429")
    case True
    obtain es n where
      h: "log (snd (fetch_loop coin count to r ?w2)) = log ?w2 @ es" "n \<le> r"
         "filter (\<lambda>e. \<not> is_print e) es = concat (replicate n [?G, Sleep 10]) @
            (if fst (fetch_loop coin count to r ?w2) = None then [] else [?G])"
         "(fst (fetch_loop coin count to r ?w2) = None) = (n = r)"
      using Suc[of ?w2] by (elim exE conjE) (rule that; assumption)
    have l2: "log ?w2 = log w @ [?G, Print (RateLimitExceeded coin), Sleep 10]"
      by simp
    have eq: "fetch_loop coin count to (Suc r) w = fetch_loop coin count to r ?w2"
      using True by (rule fetch_loop_429)
    have "log (snd (fetch_loop coin count to r ?w2)) =
            log w @ ([?G, Print (RateLimitExceeded coin), Sleep 10] @ es)"
      using h(1) l2 by simp
    moreover have "Suc n \<le> Suc r" using h(2) by simp
    moreover have "filter (\<lambda>e. \<not> is_print e) ([?G, Print (RateLimitExceeded coin), Sleep 10] @ es) =
         concat (replicate (Suc n) [?G, Sleep 10]) @
            (if fst (fetch_loop coin count to r ?w2) = None then [] else [?G])"
      using h(3) by simp
    moreover have "(fst (fetch_loop coin count to r ?w2) = None) = (Suc n = Suc r)"
      using h(4) by simp
    ultimately show ?thesis unfolding eq
      by (intro exI[of _ "[?G, Print (RateLimitExceeded coin), Sleep 10] @ es"] exI[of _ "Suc n"] conjI)
  next
    case False
    obtain df ps where
      e: "fetch_loop coin count to (Suc r) w =
            (Some df, w\<lparr>calls := Suc (calls w), log := log w @ ?G # map Print ps\<rparr>)"
      using fetch_loop_other[OF False, of r] by (elim exE) (rule that)
    show ?thesis
      unfolding e
      by (intro exI[of _ "?G # map Print ps"] exI[of _ 0]) (simp add: filter_map_Print)
  qed
qed


lemma fetch_loop_200:
  "status_code (candles_days w (market_of coin) count to (calls w)) = 200 \<Longrightarrow>
   json (candles_days w (market_of coin) count to (calls w)) \<noteq> [] \<Longrightarrow>
   fetch_loop coin count to (Suc r) w =
     (Some (DataFrame (rev (json (candles_days w (market_of coin) count to (calls w))))),
      emit (Get (CandlesDays (market_of coin) count to)) (w\<lparr>calls := Suc (calls w)\<rparr>))"
  by (simp add: get_candles_days_def)



section \<open>Proofs: one iteration of the synchronisation loop\<close>

lemma before_fetch_fields [simp]:
  "calls (before_fetch coin w) = calls w"
  "candles_days (before_fetch coin w) = candles_days w"
  "market_all (before_fetch coin w) = market_all w"
  "files (before_fetch coin w) = files w"
  by (simp_all add: before_fetch_def emit_def split: option.splits)

lemma before_fetch_log:
  "\<exists>ps. log (before_fetch coin w) = log w @ map Print ps"
proof (cases "files w (file_name coin)")
  case None
  then show ?thesis
    by (intro exI[of _ "[Updating coin, NoSavedData coin, FetchingAll coin]"])
       (simp add: before_fetch_def emit_def)
next
  case (Some rs)
  show ?thesis
  proof (cases "rs = []")
    case True
    with Some show ?thesis
      by (intro exI[of _ "[Updating coin, FetchingAll coin]"])
         (simp add: before_fetch_def emit_def)
  next
    case False
    with Some show ?thesis
      by (intro exI[of _ "[Updating coin]"]) (simp add: before_fetch_def emit_def)
  qed
qed

lemma update_coin_eq:
  "update_coin coin w =
     (case fetch_historical_data coin 200 (sync_cursor w coin) (before_fetch coin w) of
        (None, w2) \<Rightarrow> (Some AttributeError, w2)
      | (Some nd, w2) \<Rightarrow>
          if fresh_rows w coin nd = [] then (None, emit (Print (NoNewData coin)) w2)
          else (None, emit (Print (Updated coin))
                  (save_coin_data coin (DataFrame (stored w coin @ fresh_rows w coin nd)) w2)))"
proof (cases "files w (file_name coin)")
  case None
  obtain r w2 where f: "fetch_historical_data coin 200 None
      (emit (Print (FetchingAll coin)) (emit (Print (NoSavedData coin)) (emit (Print (Updating coin)) w))) = (r, w2)"
    by (rule prod.exhaust)
  have l: "files (emit (Print (Updating coin)) w) (file_name coin) = None"
    using None by (simp add: emit_def)
  show ?thesis
    using None f l
    by (cases r)
       (simp_all add: update_coin_def load_coin_data_def sync_cursor_def stored_def before_fetch_def
          fresh_rows_def save_if_new_def empty_def DataFrame_def)
next
  case (Some rs)
  have l: "files (emit (Print (Updating coin)) w) (file_name coin) = Some rs"
    using Some by (simp add: emit_def)
  show ?thesis
  proof (cases "rs = []")
    case True
    obtain r w2 where f: "fetch_historical_data coin 200 None
      (emit (Print (FetchingAll coin)) (emit (Print (Updating coin)) w)) = (r, w2)"
      by (rule prod.exhaust)
    show ?thesis
      using Some True f l
      by (cases r)
         (simp_all add: update_coin_def load_coin_data_def sync_cursor_def stored_def before_fetch_def
            fresh_rows_def save_if_new_def empty_def DataFrame_def)
  next
    case False
    obtain r w2 where f: "fetch_historical_data coin 200
        (Some (column_max (map candle_date_time_kst rs))) (emit (Print (Updating coin)) w) = (r, w2)"
      by (rule prod.exhaust)
    show ?thesis
      using Some False f l
      by (cases r)
         (simp_all add: update_coin_def load_coin_data_def sync_cursor_def stored_def before_fetch_def
            fresh_rows_def save_if_new_def empty_def DataFrame_def)
  qed
qed

lemma column_max_Max: "ts \<noteq> [] \<Longrightarrow> column_max ts = Max (set ts)"
proof -
  assume "ts \<noteq> []"
  then obtain x xs where ts: "ts = x # xs" by (cases ts) simp_all
  have "foldl max x xs = fold max xs x"
    by (simp add: foldl_conv_fold max.commute)
  moreover have "Max (set (x # xs)) = fold max xs x"
    by (rule Max.set_eq_fold)
  ultimately show ?thesis
    by (simp only: ts column_max_def list.sel)
qed

lemma fetch_files [simp]: "files (snd (fetch_historical_data coin count to w)) = files w"
  by (simp add: fetch_historical_data_def fetch_loop_files)

lemma fetch_oracle [simp]:
  "candles_days (snd (fetch_historical_data coin count to w)) = candles_days w"
  by (simp add: fetch_historical_data_def fetch_loop_oracle)

lemma fetch_loop_market_all:
  "market_all (snd (fetch_loop coin count to r w)) = market_all w"
  by (induction r arbitrary: w)
     (simp_all add: get_candles_days_def emit_def)

lemma fetch_market_all [simp]:
  "market_all (snd (fetch_historical_data coin count to w)) = market_all w"
  by (simp add: fetch_historical_data_def fetch_loop_market_all)

lemma is_write_not_print: "is_write e \<Longrightarrow> \<not> is_print e"
  by (cases e) simp_all

lemma filter_write_retries:
  "filter is_write (concat (replicate n [Get q, Sleep d])) = []"
  by (induction n) simp_all

lemma fetch_no_write:
  "\<exists>es. log (snd (fetch_historical_data coin count to w)) = log w @ es \<and> filter is_write es = []"
proof -
  obtain es n where h: "log (snd (fetch_loop coin count to 3 w)) = log w @ es"
     "filter (\<lambda>e. \<not> is_print e) es =
       concat (replicate n [Get (CandlesDays (market_of coin) count to), Sleep 10]) @
       (if fst (fetch_loop coin count to 3 w) = None then []
        else [Get (CandlesDays (market_of coin) count to)])"
    using fetch_loop_trace[of coin count to 3 w] by (elim exE conjE) (rule that; assumption)
  have "filter is_write es = filter is_write (filter (\<lambda>e. \<not> is_print e) es)"
    by (simp, rule filter_cong) (auto dest: is_write_not_print)
  also have "\<dots> = []"
    unfolding h(2) by (simp add: filter_write_retries)
  finally show ?thesis
    using h(1) unfolding fetch_historical_data_def by (intro exI[of _ es] conjI)
qed

lemma fetch_loop_rows:
  "fst (fetch_loop coin count to r w) = Some nd \<Longrightarrow>
   \<exists>n. set (rows nd) \<subseteq> set (json (candles_days w (market_of coin) count to n))"
proof (induction r arbitrary: w)
  case 0
  then show ?case by simp
next
  case (Suc r)
  let ?resp = "candles_days w (market_of coin) count to (calls w)"
  show ?case
  proof (cases "status_code ?resp = 429")
    case True
    have "fst (fetch_loop coin count to r (rate_limited_attempt coin count to w)) = Some nd"
      using Suc.prems fetch_loop_429[OF True, of r] by simp
    from Suc.IH[OF this] show ?thesis by simp
  next
    case False
    have "rows nd = rev (json ?resp) \<or> rows nd = []"
      using Suc.prems False
      by (simp add: get_candles_days_def DataFrame_def split: if_splits)
         (erule subst, simp)+
    then show ?thesis
      by (intro exI[of _ "calls w"]) (elim disjE, simp_all)
  qed
qed

lemma stored_Some: "files w (file_name coin) = Some rs \<Longrightarrow> stored w coin = rs"
  by (simp add: stored_def)

lemma events_since_append: "log w' = log w @ es \<Longrightarrow> events_since w w' = es"
  by (simp add: events_since_def)

lemma filter_write_prints: "filter is_write (map Print ps) = []"
  by (induction ps) simp_all

text \<open>What one iteration does to the files and the log, by the outcome of the fetch.\<close>

lemma update_coin_effect:
  assumes f: "fetch_historical_data coin 200 (sync_cursor w coin) (before_fetch coin w) = (r, w2)"
  shows "\<exists>es. log w2 = log w @ es \<and> filter is_write es = [] \<and> files w2 = files w"
proof -
  obtain ps where p: "log (before_fetch coin w) = log w @ map Print ps"
    using before_fetch_log[of coin w] by (elim exE) (rule that)
  obtain es where e: "log (snd (fetch_historical_data coin 200 (sync_cursor w coin) (before_fetch coin w)))
      = log (before_fetch coin w) @ es" "filter is_write es = []"
    using fetch_no_write[of coin 200 "sync_cursor w coin" "before_fetch coin w"]
    by (elim exE conjE) (rule that; assumption)
  have "files w2 = files w"
    using fetch_files[of coin 200 "sync_cursor w coin" "before_fetch coin w"] by (simp add: f)
  moreover have "log w2 = log w @ (map Print ps @ es)"
    using e(1) p by (simp add: f)
  moreover have "filter is_write (map Print ps @ es) = []"
    using e(2) by (simp add: filter_write_prints)
  ultimately show ?thesis
    by (intro exI[of _ "map Print ps @ es"] conjI)
qed

lemma update_coin_None:
  assumes "fst (fetch_historical_data coin 200 (sync_cursor w coin) (before_fetch coin w)) = None"
  shows "fst (update_coin coin w) = Some AttributeError"
    and "files (snd (update_coin coin w)) = files w"
    and "writes_since w (snd (update_coin coin w)) = []"
proof -
  obtain w2 where f: "fetch_historical_data coin 200 (sync_cursor w coin) (before_fetch coin w) = (None, w2)"
    using assms by (cases "fetch_historical_data coin 200 (sync_cursor w coin) (before_fetch coin w)") simp
  obtain es where e: "log w2 = log w @ es" "filter is_write es = []" "files w2 = files w"
    using update_coin_effect[OF f] by (elim exE conjE) (rule that; assumption)
  have u: "update_coin coin w = (Some AttributeError, w2)"
    by (simp add: update_coin_eq f)
  show "fst (update_coin coin w) = Some AttributeError" by (simp add: u)
  show "files (snd (update_coin coin w)) = files w" by (simp add: u e)
  show "writes_since w (snd (update_coin coin w)) = []"
    by (simp add: u writes_since_def events_since_append[OF e(1)] e(2))
qed

lemma update_coin_no_new:
  assumes "fst (fetch_historical_data coin 200 (sync_cursor w coin) (before_fetch coin w)) = Some nd"
    and "fresh_rows w coin nd = []"
  shows "fst (update_coin coin w) = None"
    and "files (snd (update_coin coin w)) = files w"
    and "writes_since w (snd (update_coin coin w)) = []"
    and "last (log (snd (update_coin coin w))) = Print (NoNewData coin)"
proof -
  obtain w2 where f: "fetch_historical_data coin 200 (sync_cursor w coin) (before_fetch coin w) = (Some nd, w2)"
    using assms(1) by (cases "fetch_historical_data coin 200 (sync_cursor w coin) (before_fetch coin w)") simp
  obtain es where e: "log w2 = log w @ es" "filter is_write es = []" "files w2 = files w"
    using update_coin_effect[OF f] by (elim exE conjE) (rule that; assumption)
  have u: "update_coin coin w = (None, emit (Print (NoNewData coin)) w2)"
    by (simp add: update_coin_eq f assms(2))
  have l: "log (emit (Print (NoNewData coin)) w2) = log w @ (es @ [Print (NoNewData coin)])"
    by (simp add: emit_def e)
  show "fst (update_coin coin w) = None" by (simp add: u)
  show "files (snd (update_coin coin w)) = files w" by (simp add: u e emit_def)
  show "writes_since w (snd (update_coin coin w)) = []"
    by (simp add: u writes_since_def events_since_append[OF l] e(2))
  show "last (log (snd (update_coin coin w))) = Print (NoNewData coin)"
    by (simp add: u emit_def)
qed

lemma update_coin_new:
  assumes "fst (fetch_historical_data coin 200 (sync_cursor w coin) (before_fetch coin w)) = Some nd"
    and "fresh_rows w coin nd \<noteq> []"
  shows "fst (update_coin coin w) = None"
    and "files (snd (update_coin coin w)) =
           (files w)(file_name coin \<mapsto> stored w coin @ fresh_rows w coin nd)"
    and "writes_since w (snd (update_coin coin w)) = [ToCsv (file_name coin)]"
proof -
  obtain w2 where f: "fetch_historical_data coin 200 (sync_cursor w coin) (before_fetch coin w) = (Some nd, w2)"
    using assms(1) by (cases "fetch_historical_data coin 200 (sync_cursor w coin) (before_fetch coin w)") simp
  obtain es where e: "log w2 = log w @ es" "filter is_write es = []" "files w2 = files w"
    using update_coin_effect[OF f] by (elim exE conjE) (rule that; assumption)
  let ?w3 = "emit (Print (Updated coin))
      (save_coin_data coin (DataFrame (stored w coin @ fresh_rows w coin nd)) w2)"
  have u: "update_coin coin w = (None, ?w3)"
    by (simp add: update_coin_eq f assms(2))
  have l: "log ?w3 = log w @ (es @ [ToCsv (file_name coin), Print (Updated coin)])"
    by (simp add: emit_def save_coin_data_def e)
  show "fst (update_coin coin w) = None" by (simp add: u)
  show "files (snd (update_coin coin w)) =
           (files w)(file_name coin \<mapsto> stored w coin @ fresh_rows w coin nd)"
    by (simp add: u e emit_def save_coin_data_def DataFrame_def)
  show "writes_since w (snd (update_coin coin w)) = [ToCsv (file_name coin)]"
    by (simp add: u writes_since_def events_since_append[OF l] e(2))
qed

lemma fetch_rows:
  "fst (fetch_historical_data coin count to w) = Some nd \<Longrightarrow>
   \<exists>n. set (rows nd) \<subseteq> set (json (candles_days w (market_of coin) count to n))"
  unfolding fetch_historical_data_def by (rule fetch_loop_rows)

lemma update_coin_log:
  "\<exists>es. log (snd (update_coin coin w)) = log w @ es"
proof -
  obtain r w2 where f: "fetch_historical_data coin 200 (sync_cursor w coin) (before_fetch coin w) = (r, w2)"
    by (rule prod.exhaust)
  obtain es where e: "log w2 = log w @ es"
    using update_coin_effect[OF f] by (elim exE conjE) (rule that)
  show ?thesis
  proof (cases r)
    case None
    then show ?thesis
      by (intro exI[of _ es]) (simp add: update_coin_eq f e)
  next
    case (Some nd)
    show ?thesis
    proof (cases "fresh_rows w coin nd = []")
      case True
      with Some show ?thesis
        by (intro exI[of _ "es @ [Print (NoNewData coin)]"]) (simp add: update_coin_eq f e emit_def)
    next
      case False
      with Some show ?thesis
        by (intro exI[of _ "es @ [ToCsv (file_name coin), Print (Updated coin)]"])
           (simp add: update_coin_eq f e emit_def save_coin_data_def)
    qed
  qed
qed

lemma update_coin_oracle [simp]:
  "candles_days (snd (update_coin coin w)) = candles_days w"
proof -
  obtain r w2 where f: "fetch_historical_data coin 200 (sync_cursor w coin) (before_fetch coin w) = (r, w2)"
    by (rule prod.exhaust)
  have "candles_days w2 = candles_days w"
    using fetch_oracle[of coin 200 "sync_cursor w coin" "before_fetch coin w"] by (simp add: f)
  then show ?thesis
    by (cases r) (simp_all add: update_coin_eq f emit_def save_coin_data_def)
qed

lemma writes_since_append:
  "log w' = log w @ es \<Longrightarrow> writes_since w w' = filter is_write es"
  by (simp add: writes_since_def events_since_def)

lemma no_newer_data_fresh:
  assumes nn: "no_newer_data w"
    and f: "fst (fetch_historical_data coin 200 (sync_cursor w coin) (before_fetch coin w)) = Some nd"
  shows "fresh_rows w coin nd = []"
proof -
  obtain n where n: "set (rows nd) \<subseteq> set (json (candles_days w (market_of coin) 200 (sync_cursor w coin) n))"
    using fetch_rows[OF f] by (elim exE) simp
  have old: "\<exists>x \<in> set (stored w coin). candle_date_time_kst c \<le> candle_date_time_kst x"
    if "c \<in> set (rows nd)" for c
  proof -
    have "c \<in> set (json (candles_days w (market_of coin) 200 (sync_cursor w coin) n))"
      using n that by (rule subsetD)
    then show ?thesis
      by (rule nn[unfolded no_newer_data_def, rule_format])
  qed
  show ?thesis
  proof (cases "stored w coin = []")
    case True
    have "rows nd = []"
    proof (cases "rows nd")
      case Nil then show ?thesis .
    next
      case (Cons c cs)
      then have "c \<in> set (rows nd)" by simp
      from old[OF this] True show ?thesis by simp
    qed
    with True show ?thesis by (simp add: fresh_rows_def)
  next
    case False
    let ?ts = "map candle_date_time_kst (stored w coin)"
    have ne: "?ts \<noteq> []" using False by simp
    have "\<not> column_max ?ts < candle_date_time_kst c" if c: "c \<in> set (rows nd)" for c
    proof -
      obtain x where x: "x \<in> set (stored w coin)" "candle_date_time_kst c \<le> candle_date_time_kst x"
        using old[OF c] by (elim bexE)
      have "candle_date_time_kst x \<le> Max (set ?ts)"
        using x(1) by (intro Max_ge) simp_all
      with x(2) show ?thesis by (simp add: column_max_Max[OF ne])
    qed
    then have "filter (\<lambda>c. column_max ?ts < candle_date_time_kst c) (rows nd) = []"
      by (simp add: filter_empty_conv)
    with False show ?thesis by (simp add: fresh_rows_def)
  qed
qed

lemma update_coin_up_to_date:
  assumes "no_newer_data w"
  shows "files (snd (update_coin coin w)) = files w"
    and "writes_since w (snd (update_coin coin w)) = []"
proof -
  let ?f = "fst (fetch_historical_data coin 200 (sync_cursor w coin) (before_fetch coin w))"
  have "files (snd (update_coin coin w)) = files w \<and> writes_since w (snd (update_coin coin w)) = []"
  proof (cases ?f)
    case None
    from update_coin_None(2,3)[OF None] show ?thesis by (intro conjI)
  next
    case (Some nd)
    from update_coin_no_new(2,3)[OF Some no_newer_data_fresh[OF assms Some]]
    show ?thesis by (intro conjI)
  qed
  then show "files (snd (update_coin coin w)) = files w"
    and "writes_since w (snd (update_coin coin w)) = []" by simp_all
qed

lemma no_newer_data_cong:
  "files w' = files w \<Longrightarrow> candles_days w' = candles_days w \<Longrightarrow>
   no_newer_data w' = no_newer_data w"
  by (simp add: no_newer_data_def stored_def)

lemma update_coins_up_to_date:
  "no_newer_data w \<Longrightarrow>
   files (snd (update_coins coins w)) = files w \<and>
   (\<exists>es. log (snd (update_coins coins w)) = log w @ es \<and> filter is_write es = [])"
proof (induction coins arbitrary: w)
  case Nil
  show ?case by simp
next
  case (Cons coin coins)
  obtain e w1 where u: "update_coin coin w = (e, w1)" by (rule prod.exhaust)
  have fs: "files w1 = files w"
    using update_coin_up_to_date(1)[OF Cons.prems, of coin] by (simp add: u)
  obtain es where es: "log w1 = log w @ es"
    using update_coin_log[of coin w] by (elim exE) (simp add: u)
  have wr: "filter is_write es = []"
    using update_coin_up_to_date(2)[OF Cons.prems, of coin] writes_since_append[OF es]
    by (simp add: u)
  show ?case
  proof (cases e)
    case (Some err)
    then show ?thesis
      using fs es wr by (intro conjI exI[of _ es]) (simp_all add: u)
  next
    case None
    have "candles_days w1 = candles_days w"
      using update_coin_oracle[of coin w] by (simp add: u)
    with fs have "no_newer_data w1 = no_newer_data w" by (rule no_newer_data_cong)
    with Cons.prems have "no_newer_data w1" by simp
    from Cons.IH[OF this] obtain es' where
      r: "files (snd (update_coins coins w1)) = files w1"
         "log (snd (update_coins coins w1)) = log w1 @ es'" "filter is_write es' = []"
      by (elim exE conjE) (rule that; assumption)
    show ?thesis
      using r fs es wr None
      by (intro conjI exI[of _ "es @ es'"]) (simp_all add: u)
  qed
qed

lemma fetch_coin_list_effect:
  "files (snd (fetch_coin_list w)) = files w"
  "candles_days (snd (fetch_coin_list w)) = candles_days w"
  "\<exists>es. log (snd (fetch_coin_list w)) = log w @ es \<and> filter is_write es = []"
proof -
  show "files (snd (fetch_coin_list w)) = files w"
    by (simp add: fetch_coin_list_def get_market_all_def emit_def)
  show "candles_days (snd (fetch_coin_list w)) = candles_days w"
    by (simp add: fetch_coin_list_def get_market_all_def emit_def)
  show "\<exists>es. log (snd (fetch_coin_list w)) = log w @ es \<and> filter is_write es = []"
  proof (cases "status_code (market_all w (calls w)) = 200")
    case True
    then show ?thesis
      by (intro exI[of _ "[Get MarketAll]"]) (simp add: fetch_coin_list_def get_market_all_def emit_def)
  next
    case False
    then show ?thesis
      by (intro exI[of _ "[Get MarketAll, Print (FailedCoinList (status_code (market_all w (calls w))))]"])
         (simp add: fetch_coin_list_def get_market_all_def emit_def)
  qed
qed

lemma update_all_coins_up_to_date:
  assumes "no_newer_data w"
  shows "files (snd (update_all_coins w)) = files w"
    and "writes_since w (snd (update_all_coins w)) = []"
proof -
  obtain coins w1 where c: "fetch_coin_list w = (coins, w1)" by (rule prod.exhaust)
  have f1: "files w1 = files w" "candles_days w1 = candles_days w"
    using fetch_coin_list_effect(1,2)[of w] by (simp_all add: c)
  obtain es where es: "log w1 = log w @ es" "filter is_write es = []"
    using fetch_coin_list_effect(3)[of w] by (elim exE conjE) (simp add: c)
  have "no_newer_data w1 = no_newer_data w" using f1 by (rule no_newer_data_cong)
  with assms have "no_newer_data w1" by simp
  from update_coins_up_to_date[OF this, of coins] obtain es' where
    r: "files (snd (update_coins coins w1)) = files w1"
       "log (snd (update_coins coins w1)) = log w1 @ es'" "filter is_write es' = []"
    by (elim exE conjE) (rule that; assumption)
  have u: "update_all_coins w = update_coins coins w1"
    by (simp add: update_all_coins_def c)
  show "files (snd (update_all_coins w)) = files w"
    by (simp add: u r f1)
  have "log (snd (update_all_coins w)) = log w @ (es @ es')"
    by (simp add: u r es)
  from writes_since_append[OF this] show "writes_since w (snd (update_all_coins w)) = []"
    by (simp add: es r)
qed


section \<open>The claims about synchronisation\<close>



text \<open>
  Claim C2. When the file of a coin holds at least one candle, one iteration of
  \<open>update_all_coins\<close> leaves in the file the stored candles, unchanged and in their
  order, followed by those candles of the fetched frame whose timestamp is strictly
  greater than the greatest stored timestamp; no other file changes. When no fetched
  candle passes that filter nothing is written, and if a frame was fetched at all the
  iteration ends without an exception and its last message is "No new data"; otherwise
  the file is written exactly once.
\<close>

theorem merge_appends_strictly_newer:
  assumes "files w (file_name coin) = Some rs" and "rs \<noteq> []"
  shows
    "let last_date = Max (set (map candle_date_time_kst rs));
         fetched = fst (fetch_historical_data coin 200 (Some last_date)
                          (emit (Print (Updating coin)) w));
         new = (case fetched of
                  None \<Rightarrow> []
                | Some nd \<Rightarrow> filter (\<lambda>c. last_date < candle_date_time_kst c) (rows nd));
         w' = snd (update_coin coin w)
     in stored w' coin = rs @ new \<and>
        (\<forall>c \<in> set new. last_date < candle_date_time_kst c) \<and>
        (\<forall>f. f \<noteq> file_name coin \<longrightarrow> files w' f = files w f) \<and>
        (new = [] \<longrightarrow> files w' = files w \<and> writes_since w w' = []) \<and>
        (new = [] \<and> fetched \<noteq> None \<longrightarrow>
           fst (update_coin coin w) = None \<and> last (log w') = Print (NoNewData coin)) \<and>
        (new \<noteq> [] \<longrightarrow>
           fst (update_coin coin w) = None \<and> writes_since w w' = [ToCsv (file_name coin)])"
proof -
  let ?last = "Max (set (map candle_date_time_kst rs))"
  have st: "stored w coin = rs" using assms(1) by (rule stored_Some)
  have cur: "sync_cursor w coin = Some ?last"
    using assms(2) by (simp add: sync_cursor_def st column_max_Max)
  have bf: "before_fetch coin w = emit (Print (Updating coin)) w"
    using assms by (simp add: before_fetch_def)
  have fr: "fresh_rows w coin nd = filter (\<lambda>c. ?last < candle_date_time_kst c) (rows nd)" for nd
    using assms(2) by (simp add: fresh_rows_def st column_max_Max)
  let ?fetched = "fst (fetch_historical_data coin 200 (Some ?last) (emit (Print (Updating coin)) w))"
  show ?thesis
  proof (cases ?fetched)
    case None
    then have n: "fst (fetch_historical_data coin 200 (sync_cursor w coin) (before_fetch coin w)) = None"
      by (simp add: cur bf)
    show ?thesis
      using update_coin_None[OF n] assms(1) None
      by (simp add: Let_def stored_def)
  next
    case (Some nd)
    then have s: "fst (fetch_historical_data coin 200 (sync_cursor w coin) (before_fetch coin w)) = Some nd"
      by (simp add: cur bf)
    show ?thesis
    proof (cases "filter (\<lambda>c. ?last < candle_date_time_kst c) (rows nd) = []")
      case True
      then have e: "fresh_rows w coin nd = []" by (simp add: fr)
      show ?thesis
        using update_coin_no_new[OF s e] assms(1) Some True
        by (simp add: Let_def stored_def)
    next
      case False
      then have e: "fresh_rows w coin nd \<noteq> []" by (simp add: fr)
      show ?thesis
        using update_coin_new[OF s e] assms(1) Some False
        by (simp add: Let_def stored_def fr)
    qed
  qed
qed

lemma fetch_overlapping:
  "fetch_historical_data ''KRW-BTC (Bitcoin)'' 200 (Some 2) (emit (Print (Updating ''KRW-BTC (Bitcoin)'')) overlapping)
    = (Some (DataFrame [day2, day3]),
       emit (Get (CandlesDays ''KRW-BTC'' 200 (Some 2))) (emit (Print (Updating ''KRW-BTC (Bitcoin)'')) (overlapping\<lparr>calls := 1\<rparr>)))"
  by (simp add: fetch_historical_data_def numeral_3_eq_3 get_candles_days_def emit_def
        overlapping_def market_of_def)

lemma fetch_up_to_date:
  "fst (fetch_historical_data ''KRW-BTC (Bitcoin)'' 200 (Some 2)
         (emit (Print (Updating ''KRW-BTC (Bitcoin)'')) up_to_date)) = Some (DataFrame [day1, day2])"
  by (simp add: fetch_historical_data_def numeral_3_eq_3 get_candles_days_def emit_def
        up_to_date_def market_of_def)

theorem merge_appends_strictly_newer_witness:
  "files overlapping (file_name ''KRW-BTC (Bitcoin)'') = Some [day1, day2] \<and> [day1, day2] \<noteq> [] \<and>
   stored (snd (update_coin ''KRW-BTC (Bitcoin)'' overlapping)) ''KRW-BTC (Bitcoin)'' =
     [day1, day2, day3] \<and>
   writes_since overlapping (snd (update_coin ''KRW-BTC (Bitcoin)'' overlapping)) =
     [ToCsv ''KRW-BTC_data.csv''] \<and>
   files up_to_date (file_name ''KRW-BTC (Bitcoin)'') = Some [day1, day2] \<and>
   fst (update_coin ''KRW-BTC (Bitcoin)'' up_to_date) = None \<and>
   files (snd (update_coin ''KRW-BTC (Bitcoin)'' up_to_date)) = files up_to_date \<and>
   writes_since up_to_date (snd (update_coin ''KRW-BTC (Bitcoin)'' up_to_date)) = [] \<and>
   last (log (snd (update_coin ''KRW-BTC (Bitcoin)'' up_to_date))) =
     Print (NoNewData ''KRW-BTC (Bitcoin)'')"
proof -
  have f: "files overlapping (file_name ''KRW-BTC (Bitcoin)'') = Some [day1, day2]"
    by (simp add: overlapping_def file_name_def market_of_def)
  have g: "files up_to_date (file_name ''KRW-BTC (Bitcoin)'') = Some [day1, day2]"
    by (simp add: up_to_date_def file_name_def market_of_def)
  have n: "[day1, day2] \<noteq> []" by simp
  have fn: "file_name ''KRW-BTC (Bitcoin)'' = ''KRW-BTC_data.csv''"
    by (simp add: file_name_def market_of_def)
  have ts: "candle_date_time_kst day1 = 1" "candle_date_time_kst day2 = 2"
    "candle_date_time_kst day3 = 3"
    by (simp_all add: day1_def day2_def day3_def)
  have a: "stored (snd (update_coin ''KRW-BTC (Bitcoin)'' overlapping)) ''KRW-BTC (Bitcoin)'' =
     [day1, day2, day3] \<and>
   writes_since overlapping (snd (update_coin ''KRW-BTC (Bitcoin)'' overlapping)) =
     [ToCsv ''KRW-BTC_data.csv'']"
    using merge_appends_strictly_newer[OF f n] f
    by (simp add: Let_def ts fetch_overlapping DataFrame_def fn)
  have b: "fst (update_coin ''KRW-BTC (Bitcoin)'' up_to_date) = None \<and>
   files (snd (update_coin ''KRW-BTC (Bitcoin)'' up_to_date)) = files up_to_date \<and>
   writes_since up_to_date (snd (update_coin ''KRW-BTC (Bitcoin)'' up_to_date)) = [] \<and>
   last (log (snd (update_coin ''KRW-BTC (Bitcoin)'' up_to_date))) =
     Print (NoNewData ''KRW-BTC (Bitcoin)'')"
    using merge_appends_strictly_newer[OF g n] g
    by (simp add: Let_def ts fetch_up_to_date DataFrame_def fn)
  from f g n a b show ?thesis by (intro conjI) simp_all
qed

lemma first_sync_coins:
  "fetch_coin_list first_sync =
     ([''KRW-BTC (Bitcoin)''], emit (Get MarketAll) (first_sync\<lparr>calls := Suc 0\<rparr>))"
  by (simp add: fetch_coin_list_def get_market_all_def first_sync_def up_to_date_def)

lemma first_sync_names:
  "market_of ''KRW-BTC (Bitcoin)'' = ''KRW-BTC''"
  "file_name ''KRW-BTC (Bitcoin)'' = ''KRW-BTC_data.csv''"
  by (simp_all add: file_name_def market_of_def)

lemma fetch_200:
  assumes "status_code (candles_days w (market_of coin) count to (calls w)) = 200"
    and "json (candles_days w (market_of coin) count to (calls w)) \<noteq> []"
  shows "fst (fetch_historical_data coin count to w) =
     Some (DataFrame (rev (json (candles_days w (market_of coin) count to (calls w)))))"
  unfolding fetch_historical_data_def numeral_3_eq_3 fetch_loop_200[OF assms] by simp

lemma update_coins_oracle [simp]:
  "candles_days (snd (update_coins coins w)) = candles_days w"
proof (induction coins arbitrary: w)
  case Nil
  show ?case by simp
next
  case (Cons coin coins)
  obtain e w1 where u: "update_coin coin w = (e, w1)" by (rule prod.exhaust)
  have "candles_days w1 = candles_days w"
    using update_coin_oracle[of coin w] by (simp add: u)
  then show ?case using Cons.IH[of w1] by (cases e) (simp_all add: u)
qed

lemma update_all_coins_oracle [simp]:
  "candles_days (snd (update_all_coins w)) = candles_days w"
proof -
  obtain coins w1 where c: "fetch_coin_list w = (coins, w1)" by (rule prod.exhaust)
  have "candles_days w1 = candles_days w"
    using fetch_coin_list_effect(2)[of w] by (simp add: c)
  then show ?thesis by (simp add: update_all_coins_def c)
qed

lemma first_sync_files:
  "files (snd (update_all_coins first_sync)) = [''KRW-BTC_data.csv'' \<mapsto> [day1, day2]]"
proof -
  let ?coin = "''KRW-BTC (Bitcoin)''"
  let ?W = "emit (Get MarketAll) (first_sync\<lparr>calls := Suc 0\<rparr>)"
  have c: "candles_days ?W = candles_days up_to_date" "calls ?W = Suc 0" "files ?W = Map.empty"
    by (simp_all add: emit_def first_sync_def)
  have st: "stored ?W ?coin = []" by (simp add: stored_def c)
  have cur: "sync_cursor ?W ?coin = None" by (simp add: sync_cursor_def st)
  have resp: "candles_days up_to_date ''KRW-BTC'' 200 None (Suc 0) =
      \<lparr>status_code = 200, json = [day2, day1]\<rparr>"
    by (simp add: up_to_date_def)
  have f: "fst (fetch_historical_data ?coin 200 (sync_cursor ?W ?coin) (before_fetch ?coin ?W)) =
      Some (DataFrame [day1, day2])"
    using fetch_200[of "before_fetch ?coin ?W" ?coin 200 None]
    by (simp add: cur c resp first_sync_names)
  have fr: "fresh_rows ?W ?coin (DataFrame [day1, day2]) = [day1, day2]"
    by (simp add: fresh_rows_def st DataFrame_def)
  have n: "fresh_rows ?W ?coin (DataFrame [day1, day2]) \<noteq> []" by (simp add: fr)
  have u: "fst (update_coin ?coin ?W) = None"
    "files (snd (update_coin ?coin ?W)) = [''KRW-BTC_data.csv'' \<mapsto> [day1, day2]]"
    using update_coin_new(1,2)[OF f n] by (simp_all add: fr st c first_sync_names)
  obtain w1 where w1: "update_coin ?coin ?W = (None, w1)"
    using u(1) by (cases "update_coin ?coin ?W") simp
  have "update_all_coins first_sync = (None, w1)"
    by (simp add: update_all_coins_def first_sync_coins w1)
  with u(2) show ?thesis by (simp add: w1)
qed

lemma first_sync_oracle:
  "candles_days (snd (update_all_coins first_sync)) = candles_days up_to_date"
  by (simp add: first_sync_def)

lemma first_sync_no_newer: "no_newer_data (snd (update_all_coins first_sync))"
  unfolding no_newer_data_def stored_def first_sync_files first_sync_oracle
  by (auto simp: up_to_date_def file_name_def)

text \<open>
  Claim C8. If after one run of \<open>update_all_coins\<close> the upstream holds no candle
  newer than what is stored, a second run writes no file: every file is what the first
  run left, so synchronising twice gives the same store as synchronising once.
\<close>

theorem sync_twice_idempotent:
  assumes "no_newer_data (snd (update_all_coins w))"
  shows "files (snd (update_all_coins (snd (update_all_coins w)))) =
           files (snd (update_all_coins w)) \<and>
         writes_since (snd (update_all_coins w))
           (snd (update_all_coins (snd (update_all_coins w)))) = []"
  using update_all_coins_up_to_date[OF assms] by (intro conjI)

theorem sync_twice_idempotent_witness:
  "no_newer_data (snd (update_all_coins first_sync)) \<and>
   files (snd (update_all_coins first_sync)) = [''KRW-BTC_data.csv'' \<mapsto> [day1, day2]] \<and>
   files (snd (update_all_coins (snd (update_all_coins first_sync)))) =
     [''KRW-BTC_data.csv'' \<mapsto> [day1, day2]] \<and>
   writes_since (snd (update_all_coins first_sync))
     (snd (update_all_coins (snd (update_all_coins first_sync)))) = []"
  using sync_twice_idempotent[OF first_sync_no_newer] first_sync_no_newer first_sync_files
  by simp

lemmas eval_defs = update_all_coins_def fetch_coin_list_def get_market_all_def update_coin_def
  load_coin_data_def file_name_def market_of_def fetch_historical_data_def numeral_3_eq_3
  get_candles_days_def save_if_new_def save_coin_data_def empty_def DataFrame_def emit_def
  column_max_def

text \<open>
  Claim C3. The claim asks that a failure on one asset never stops the batch. The program
  does not achieve this when the retry budget of one coin runs out: with three markets,
  the second answered 429 three times, \<open>fetch_historical_data\<close> returns \<open>None\<close>,
  \<open>new_data.empty\<close> raises AttributeError, the exception leaves \<open>update_all_coins\<close>,
  and the third market is neither requested nor stored.
\<close>

theorem exhausted_coin_aborts_batch:
  "fst (update_all_coins one_exhausted) = Some AttributeError \<and>
   files (snd (update_all_coins one_exhausted)) ''KRW-BTC_data.csv'' = Some [day1, day2] \<and>
   files (snd (update_all_coins one_exhausted)) ''KRW-XRP_data.csv'' = None \<and>
   Get (CandlesDays ''KRW-XRP'' 200 None) \<notin> set (log (snd (update_all_coins one_exhausted)))"
  by (simp add: eval_defs one_exhausted_def)

text \<open>
  A fetch that fails with another status is isolated: the second market is skipped and
  the third one is still stored.
\<close>

lemma failed_coin_is_skipped:
  "fst (update_all_coins one_failed) = None \<and>
   files (snd (update_all_coins one_failed)) ''KRW-BTC_data.csv'' = Some [day1, day2] \<and>
   files (snd (update_all_coins one_failed)) ''KRW-ETH_data.csv'' = None \<and>
   files (snd (update_all_coins one_failed)) ''KRW-XRP_data.csv'' = Some [day1, day2]"
  by (simp add: eval_defs one_failed_def one_exhausted_def)

section \<open>The claims about returns\<close>










text \<open>
  Claim C7. The claim asks that too few observations never surface as an exception. With
  a single stored candle the program does raise: for the daily period the \<open>return\<close>
  column is the single NaN, its minimum is NaN and \<open>math.floor\<close> raises ValueError;
  for the weekly period the result is a Series with one NaN, which is not empty, and
  \<open>df.columns\<close> raises AttributeError.
\<close>

theorem single_candle_analysis_raises:
  "fst (analyze_and_visualize cal ''KRW-BTC'' ''daily'' single_candle) = Inl ValueError \<and>
   fst (analyze_and_visualize cal ''KRW-BTC'' ''weekly'' single_candle) = Inl AttributeError"
  by (simp add: analyze_and_visualize_def load_coin_data_def file_name_def market_of_def
      single_candle_def DataFrame_def empty_def analyze_periodic_distribution_def Let_def
      daily_returns_def times_100_def pct_change_def ffill_def resample_last_def
      calculate_distribution_def series_min_def series_max_def finite_values_def day1_def)

section \<open>Proofs: the histogram\<close>

lemma foldl_min_Min: "foldl min x xs = Min (set (x # xs))"
proof -
  have "foldl min x xs = fold min xs x" by (simp add: foldl_conv_fold min.commute)
  moreover have "Min (set (x # xs)) = fold min xs x" by (rule Min.set_eq_fold)
  ultimately show ?thesis by simp
qed

lemma foldl_max_Max: "foldl max x xs = Max (set (x # xs))"
proof -
  have "foldl max x xs = fold max xs x" by (simp add: foldl_conv_fold max.commute)
  moreover have "Max (set (x # xs)) = fold max xs x" by (rule Max.set_eq_fold)
  ultimately show ?thesis by simp
qed

lemma series_min_finite:
  assumes "PosInf \<notin> set col" "NegInf \<notin> set col" "finite_values col \<noteq> []"
  shows "series_min col = Finite (Min (set (finite_values col)))"
proof -
  obtain x xs where v: "finite_values col = x # xs" using assms(3) by (cases "finite_values col") simp_all
  show ?thesis using assms(2) by (simp add: series_min_def v foldl_min_Min)
qed

lemma series_max_finite:
  assumes "PosInf \<notin> set col" "NegInf \<notin> set col" "finite_values col \<noteq> []"
  shows "series_max col = Finite (Max (set (finite_values col)))"
proof -
  obtain x xs where v: "finite_values col = x # xs" using assms(3) by (cases "finite_values col") simp_all
  show ?thesis using assms(1) by (simp add: series_max_def v foldl_max_Max)
qed

lemma count_below:
  "NegInf \<notin> set col \<Longrightarrow>
   length (filter (below e) col) = length (filter (\<lambda>x. x < e) (finite_values col))"
proof (induction col)
  case Nil
  show ?case by (simp add: finite_values_def)
next
  case (Cons v col)
  then show ?case by (cases v) (simp_all add: finite_values_def)
qed

lemma count_at_most:
  "NegInf \<notin> set col \<Longrightarrow>
   length (filter (at_most e) col) = length (filter (\<lambda>x. x \<le> e) (finite_values col))"
proof (induction col)
  case Nil
  show ?case by (simp add: finite_values_def)
next
  case (Cons v col)
  then show ?case by (cases v) (simp_all add: finite_values_def)
qed

lemma count_between:
  fixes e e' :: real
  assumes "e \<le> e'"
  shows "int (length (filter (\<lambda>x. x < e') vs)) - int (length (filter (\<lambda>x. x < e) vs)) =
         int (length (filter (\<lambda>x. e \<le> x \<and> x < e') vs))"
  using assms by (induction vs) auto

lemma count_between_closed:
  fixes e e' :: real
  assumes "e \<le> e'"
  shows "int (length (filter (\<lambda>x. x \<le> e') vs)) - int (length (filter (\<lambda>x. x < e) vs)) =
         int (length (filter (\<lambda>x. e \<le> x \<and> x \<le> e') vs))"
  using assms by (induction vs) auto

lemma np_diff_map_upt:
  "np_diff (map f [0..<Suc m]) = map (\<lambda>i. f (Suc i) - f i) [0..<m]"
proof -
  have "tl (map f [0..<Suc m]) = map f (tl [0..<Suc m])"
    by (rule map_tl[symmetric])
  also have "tl [0..<Suc m] = [Suc 0..<Suc m]" by (rule tl_upt)
  also have "[Suc 0..<Suc m] = map Suc [0..<m]" by (rule map_Suc_upt[symmetric])
  finally have t: "tl (map f [0..<Suc m]) = map (\<lambda>i. f (Suc i)) [0..<m]"
    by (simp add: comp_def)
  have z: "zip (map f [0..<Suc m]) (map (\<lambda>i. f (Suc i)) [0..<m]) = map (\<lambda>i. (f i, f (Suc i))) [0..<m]"
    by (rule nth_equalityI) (simp_all del: upt_Suc)
  show ?thesis unfolding np_diff_def t z by (simp add: comp_def)
qed

lemma sum_list_telescope:
  fixes c :: "nat \<Rightarrow> int"
  shows "sum_list (map (\<lambda>i. c (Suc i) - c i) [0..<m]) = c m - c 0"
  by (induction m) simp_all

lemma search_sorted_upt:
  "search_sorted_inclusive a (map e [0..<Suc k]) =
     map (\<lambda>i. if i < k then int (length (filter (below (e i)) a))
               else int (length (filter (at_most (e k)) a))) [0..<Suc k]"
  by (simp add: search_sorted_inclusive_def)

lemma zip_tl_map_upt:
  "zip (map f [0..<Suc m]) (tl (map f [0..<Suc m])) = map (\<lambda>i. (f i, f (Suc i))) [0..<m]"
proof -
  have "tl (map f [0..<Suc m]) = map f (tl [0..<Suc m])"
    by (rule map_tl[symmetric])
  also have "tl [0..<Suc m] = [Suc 0..<Suc m]" by (rule tl_upt)
  also have "[Suc 0..<Suc m] = map Suc [0..<m]" by (rule map_Suc_upt[symmetric])
  finally have t: "tl (map f [0..<Suc m]) = map (\<lambda>i. f (Suc i)) [0..<m]"
    by (simp add: comp_def)
  show ?thesis unfolding t by (rule nth_equalityI) (simp_all del: upt_Suc)
qed

lemma zip_map_upt:
  "zip (map f [0..<m]) (map g [0..<m]) = map (\<lambda>i. (f i, g i)) [0..<m]"
  by (rule nth_equalityI) simp_all

lemma floor_le_ceiling_div:
  fixes a b w :: real
  assumes "a \<le> b" "0 < w"
  shows "\<lfloor>a / w\<rfloor> \<le> \<lceil>b / w\<rceil>"
proof -
  have "a / w \<le> b / w" using assms by (simp add: divide_right_mono)
  then have "real_of_int \<lfloor>a / w\<rfloor> \<le> real_of_int \<lceil>b / w\<rceil>"
    by (meson floor_le_ceiling floor_mono le_floor_iff of_int_floor_le order_trans le_of_int_ceiling)
  then show ?thesis by simp
qed

lemma edge_step: "edge vs w (Suc i) - edge vs w i = w"
  by (simp add: edge_def algebra_simps)

lemma edge_mono: "0 < w \<Longrightarrow> edge vs w i \<le> edge vs w (Suc i)"
  using edge_step[of vs w i] by simp

lemma edge_last:
  assumes "0 < w" "vs \<noteq> []"
  shows "edge vs w (number_of_bins vs w) = upper_bound vs w"
proof -
  have "Min (set vs) \<le> Max (set vs)" using assms(2) by simp
  then have "\<lfloor>Min (set vs) / w\<rfloor> \<le> \<lceil>Max (set vs) / w\<rceil>"
    using assms(1) by (rule floor_le_ceiling_div)
  then have k: "real (number_of_bins vs w) =
      of_int \<lceil>Max (set vs) / w\<rceil> - of_int \<lfloor>Min (set vs) / w\<rfloor>"
    by (simp add: number_of_bins_def)
  show ?thesis
    unfolding edge_def lower_bound_def upper_bound_def k by (simp add: algebra_simps)
qed

lemma lower_bound_le:
  assumes "0 < w" "v \<in> set vs"
  shows "lower_bound vs w \<le> v"
proof -
  have "Min (set vs) \<le> v" using assms(2) by simp
  moreover have "of_int \<lfloor>Min (set vs) / w\<rfloor> * w \<le> Min (set vs)"
    using assms(1) by (simp add: pos_le_divide_eq[symmetric])
  ultimately show ?thesis by (simp add: lower_bound_def)
qed

lemma upper_bound_ge:
  assumes "0 < w" "v \<in> set vs"
  shows "v \<le> upper_bound vs w"
proof -
  have "v \<le> Max (set vs)" using assms(2) by simp
  moreover have "Max (set vs) \<le> of_int \<lceil>Max (set vs) / w\<rceil> * w"
    using assms(1) by (simp add: pos_divide_le_eq[symmetric])
  ultimately show ?thesis by (simp add: upper_bound_def)
qed

lemma np_arange_edges:
  assumes "0 < w" "vs \<noteq> []"
  shows "np_arange (lower_bound vs w) (upper_bound vs w + w) w =
           map (edge vs w) [0..<Suc (number_of_bins vs w)]"
proof -
  have le: "\<lfloor>Min (set vs) / w\<rfloor> \<le> \<lceil>Max (set vs) / w\<rceil>"
    using assms by (intro floor_le_ceiling_div) simp_all
  have "(upper_bound vs w + w - lower_bound vs w) / w =
      of_int (\<lceil>Max (set vs) / w\<rceil> - \<lfloor>Min (set vs) / w\<rfloor> + 1)"
    using assms(1) by (simp add: upper_bound_def lower_bound_def field_simps)
  then have "nat \<lceil>(upper_bound vs w + w - lower_bound vs w) / w\<rceil> = Suc (number_of_bins vs w)"
    using le by (simp add: number_of_bins_def ceiling_of_int del: of_int_add of_int_diff)
  then show ?thesis
    unfolding np_arange_def by (simp add: edge_def del: upt_Suc)
qed

lemma in_bin_inner:
  "Suc i \<noteq> number_of_bins vs w \<Longrightarrow>
   in_bin vs w i x = (edge vs w i \<le> x \<and> x < edge vs w (Suc i))"
  by (simp add: in_bin_def)

lemma in_bin_last:
  "Suc i = number_of_bins vs w \<Longrightarrow>
   in_bin vs w i x = (edge vs w i \<le> x \<and> x \<le> edge vs w (Suc i))"
  by (auto simp: in_bin_def)

lemma cumulative_counts:
  assumes "NegInf \<notin> set col"
  shows "search_sorted_inclusive col (map (edge vs w) [0..<Suc k]) =
     map (\<lambda>i. if i < k then int (length (filter (\<lambda>x. x < edge vs w i) (finite_values col)))
               else int (length (filter (\<lambda>x. x \<le> edge vs w k) (finite_values col))))
         [0..<Suc k]"
  unfolding search_sorted_upt
  by (rule map_cong[OF refl]) (simp add: count_below[OF assms] count_at_most[OF assms])

lemma cumulative_difference:
  assumes w: "0 < w"
    and c: "c = (\<lambda>i. if i < number_of_bins vs w
                     then int (length (filter (\<lambda>x. x < edge vs w i) vs))
                     else int (length (filter (\<lambda>x. x \<le> edge vs w (number_of_bins vs w)) vs)))"
    and i: "i < number_of_bins vs w"
  shows "c (Suc i) - c i = int (length (filter (in_bin vs w i) vs))"
proof (cases "Suc i = number_of_bins vs w")
  case True
  have "c (Suc i) - c i =
      int (length (filter (\<lambda>x. x \<le> edge vs w (Suc i)) vs)) -
      int (length (filter (\<lambda>x. x < edge vs w i) vs))"
    using i True by (simp add: c)
  also have "\<dots> = int (length (filter (\<lambda>x. edge vs w i \<le> x \<and> x \<le> edge vs w (Suc i)) vs))"
    by (rule count_between_closed) (rule edge_mono[OF w])
  also have "filter (\<lambda>x. edge vs w i \<le> x \<and> x \<le> edge vs w (Suc i)) vs = filter (in_bin vs w i) vs"
    by (rule filter_cong[OF refl]) (simp add: in_bin_last[OF True])
  finally show ?thesis .
next
  case False
  then have lt: "Suc i < number_of_bins vs w" using i by simp
  have "c (Suc i) - c i =
      int (length (filter (\<lambda>x. x < edge vs w (Suc i)) vs)) -
      int (length (filter (\<lambda>x. x < edge vs w i) vs))"
    using i lt by (simp add: c)
  also have "\<dots> = int (length (filter (\<lambda>x. edge vs w i \<le> x \<and> x < edge vs w (Suc i)) vs))"
    by (rule count_between) (rule edge_mono[OF w])
  also have "filter (\<lambda>x. edge vs w i \<le> x \<and> x < edge vs w (Suc i)) vs = filter (in_bin vs w i) vs"
    by (rule filter_cong[OF refl]) (simp add: in_bin_inner[OF False])
  finally show ?thesis .
qed

lemma histogram_counts:
  assumes w: "0 < w" and ninf: "NegInf \<notin> set col" and vs: "vs = finite_values col"
  shows "np_diff (search_sorted_inclusive col (map (edge vs w) [0..<Suc (number_of_bins vs w)])) =
           map (\<lambda>i. int (length (filter (in_bin vs w i) vs))) [0..<number_of_bins vs w]"
proof -
  define c where "c = (\<lambda>i. if i < number_of_bins vs w
                     then int (length (filter (\<lambda>x. x < edge vs w i) vs))
                     else int (length (filter (\<lambda>x. x \<le> edge vs w (number_of_bins vs w)) vs)))"
  have s: "search_sorted_inclusive col (map (edge vs w) [0..<Suc (number_of_bins vs w)]) =
      map c [0..<Suc (number_of_bins vs w)]"
    using cumulative_counts[OF ninf, of vs w "number_of_bins vs w"] by (simp only: vs c_def)
  have "np_diff (map c [0..<Suc (number_of_bins vs w)]) =
      map (\<lambda>i. c (Suc i) - c i) [0..<number_of_bins vs w]"
    by (rule np_diff_map_upt)
  also have "\<dots> = map (\<lambda>i. int (length (filter (in_bin vs w i) vs))) [0..<number_of_bins vs w]"
    by (rule map_cong[OF refl]) (rule cumulative_difference[OF w c_def], simp)
  finally show ?thesis by (simp only: s)
qed

lemma histogram_total:
  assumes w: "0 < w" and ne: "vs \<noteq> []" and k: "0 < number_of_bins vs w"
  shows "sum_list (map (\<lambda>i. int (length (filter (in_bin vs w i) vs))) [0..<number_of_bins vs w]) =
           int (length vs)"
proof -
  define c where "c = (\<lambda>i. if i < number_of_bins vs w
                     then int (length (filter (\<lambda>x. x < edge vs w i) vs))
                     else int (length (filter (\<lambda>x. x \<le> edge vs w (number_of_bins vs w)) vs)))"
  have "map (\<lambda>i. int (length (filter (in_bin vs w i) vs))) [0..<number_of_bins vs w] =
        map (\<lambda>i. c (Suc i) - c i) [0..<number_of_bins vs w]"
    by (rule map_cong[OF refl]) (rule cumulative_difference[OF w c_def, symmetric], simp)
  then have "sum_list (map (\<lambda>i. int (length (filter (in_bin vs w i) vs))) [0..<number_of_bins vs w]) =
      c (number_of_bins vs w) - c 0"
    by (simp only: sum_list_telescope)
  also have "c (number_of_bins vs w) =
      int (length (filter (\<lambda>x. x \<le> edge vs w (number_of_bins vs w)) vs))"
    by (simp add: c_def)
  also have "filter (\<lambda>x. x \<le> edge vs w (number_of_bins vs w)) vs = vs"
    using upper_bound_ge[OF w] by (simp add: edge_last[OF w ne] filter_id_conv)
  also have "c 0 = int (length (filter (\<lambda>x. x < edge vs w 0) vs))" using k by (simp add: c_def)
  also have "filter (\<lambda>x. x < edge vs w 0) vs = []"
    using lower_bound_le[OF w] by (auto simp: edge_def filter_empty_conv not_less)
  finally show ?thesis by simp
qed

lemma edges_not_decreasing:
  assumes "0 < w"
  shows "\<not> list_ex (\<lambda>(l, r). l > r)
           (zip (map (edge vs w) [0..<Suc k]) (tl (map (edge vs w) [0..<Suc k])))"
  unfolding zip_tl_map_upt list_ex_iff
  using edge_mono[OF assms, of vs] by (auto simp: not_less)

lemma np_histogram_density_edges:
  assumes w: "0 < w" and ninf: "NegInf \<notin> set col" and vs: "vs = finite_values col"
    and ne: "vs \<noteq> []"
  shows "np_histogram_density col (map (edge vs w) [0..<Suc (number_of_bins vs w)]) =
     Inr (map (\<lambda>i. Finite (real (length (filter (in_bin vs w i) vs)) / w / real (length vs)))
              [0..<number_of_bins vs w])"
proof -
  let ?k = "number_of_bins vs w"
  let ?bins = "map (edge vs w) [0..<Suc ?k]"
  let ?n = "map (\<lambda>i. int (length (filter (in_bin vs w i) vs))) [0..<?k]"
  have n: "np_diff (search_sorted_inclusive col ?bins) = ?n"
    using w ninf vs by (rule histogram_counts)
  have db: "np_diff ?bins = map (\<lambda>i. w) [0..<?k]"
    unfolding np_diff_map_upt by (simp add: edge_step)
  have z: "zip ?n (map (\<lambda>i. w) [0..<?k]) =
      map (\<lambda>i. (int (length (filter (in_bin vs w i) vs)), w)) [0..<?k]"
    by (rule zip_map_upt)
  have v: "(case (int (length (filter (in_bin vs w i) vs)), w) of
              (c, d) \<Rightarrow> fl_divide (fl_divide (Finite (real_of_int c)) (Finite d))
                          (Finite (real_of_int (sum_list ?n)))) =
           Finite (real (length (filter (in_bin vs w i) vs)) / w / real (length vs))"
    if "i \<in> set [0..<?k]" for i
  proof -
    have "0 < ?k" using that by simp
    then have "sum_list ?n = int (length vs)" by (rule histogram_total[OF w ne])
    then show ?thesis using w ne by simp
  qed
  have "map (\<lambda>(c, d). fl_divide (fl_divide (Finite (real_of_int c)) (Finite d))
                          (Finite (real_of_int (sum_list ?n))))
            (map (\<lambda>i. (int (length (filter (in_bin vs w i) vs)), w)) [0..<?k]) =
        map (\<lambda>i. Finite (real (length (filter (in_bin vs w i) vs)) / w / real (length vs))) [0..<?k]"
    unfolding map_map comp_def by (rule map_cong[OF refl]) (rule v)
  then show ?thesis
    unfolding np_histogram_density_def Let_def n db z
    using edges_not_decreasing[OF w, of vs ?k] by simp
qed

lemma calculate_distribution_eq:
  assumes w: "0 < w" and col: "return_col df = Some col"
    and pinf: "PosInf \<notin> set col" and ninf: "NegInf \<notin> set col"
    and vs: "vs = finite_values col" and ne: "vs \<noteq> []"
  shows "calculate_distribution (Frame df) w =
     Inr (map (\<lambda>i. (format_label (edge vs w i),
                     Finite (real (length (filter (in_bin vs w i) vs)) / real (length vs) * 100)))
              [0..<number_of_bins vs w])"
proof -
  let ?k = "number_of_bins vs w"
  have ne': "finite_values col \<noteq> []" using ne vs by simp
  have lo: "math_floor (fl_divide (series_min col) (Finite w)) = Inr \<lfloor>Min (set vs) / w\<rfloor>"
    using w by (simp add: series_min_finite[OF pinf ninf ne'] vs)
  have hi: "math_ceil (fl_divide (series_max col) (Finite w)) = Inr \<lceil>Max (set vs) / w\<rceil>"
    using w by (simp add: series_max_finite[OF pinf ninf ne'] vs)
  have bins: "np_arange (of_int \<lfloor>Min (set vs) / w\<rfloor> * w) (of_int \<lceil>Max (set vs) / w\<rceil> * w + w) w =
      map (edge vs w) [0..<Suc ?k]"
    using np_arange_edges[OF w ne] by (simp only: lower_bound_def upper_bound_def)
  have bl: "butlast (map (edge vs w) [0..<Suc ?k]) = map (edge vs w) [0..<?k]"
    by simp
  have z: "zip (map format_label (map (edge vs w) [0..<?k]))
               (map (\<lambda>v. fl_times (fl_times v 100) w)
                  (map (\<lambda>i. Finite (real (length (filter (in_bin vs w i) vs)) / w / real (length vs)))
                     [0..<?k])) =
           map (\<lambda>i. (format_label (edge vs w i),
                     Finite (real (length (filter (in_bin vs w i) vs)) / real (length vs) * 100)))
              [0..<?k]"
    unfolding map_map comp_def zip_map_upt using w by simp
  show ?thesis
    unfolding calculate_distribution_def
    by (simp only: pandas.case col option.case lo hi sum.case Let_def bins
        np_histogram_density_edges[OF w ninf vs ne] bl z)
qed

lemma finite_values_Finite: "finite_values (map (\<lambda>i. Finite (f i)) xs) = map f xs"
  by (induction xs) (simp_all add: finite_values_def)

lemma sum_list_percent:
  fixes f :: "nat \<Rightarrow> real"
  shows "sum_list (map (\<lambda>i. f i / n * 100) xs) = sum_list (map f xs) / n * 100"
  by (induction xs) (simp_all add: algebra_simps add_divide_distrib)

lemma real_sum_list_int:
  "real_of_int (sum_list (map (\<lambda>i. int (f i)) xs)) = sum_list (map (\<lambda>i. real (f i)) xs)"
  by (induction xs) simp_all

lemma bins_exist:
  assumes "0 < w" "vs \<noteq> []" "lower_bound vs w < upper_bound vs w"
  shows "0 < number_of_bins vs w"
proof (rule ccontr)
  assume "\<not> 0 < number_of_bins vs w"
  then have "number_of_bins vs w = 0" by simp
  with edge_last[OF assms(1,2)] have "upper_bound vs w = lower_bound vs w"
    by (simp add: edge_def)
  with assms(3) show False by simp
qed

text \<open>
  Mass conservation where it holds: with at least one finite return, no infinite one, and
  distinct bounds, the percentages of all bins add up to 100, whatever the bin width.
\<close>

lemma histogram_mass:
  assumes w: "0 < w" and col: "return_col df = Some col"
    and pinf: "PosInf \<notin> set col" and ninf: "NegInf \<notin> set col"
    and vs: "vs = finite_values col" and ne: "vs \<noteq> []"
    and k: "lower_bound vs w < upper_bound vs w"
  shows "\<exists>ds. calculate_distribution (Frame df) w = Inr ds \<and> total_percent ds = 100"
proof -
  let ?k = "number_of_bins vs w"
  let ?ds = "map (\<lambda>i. (format_label (edge vs w i),
                     Finite (real (length (filter (in_bin vs w i) vs)) / real (length vs) * 100)))
              [0..<?k]"
  have "sum_list (map (\<lambda>i. int (length (filter (in_bin vs w i) vs))) [0..<?k]) = int (length vs)"
    using w ne bins_exist[OF w ne k] by (rule histogram_total)
  then have "real_of_int (sum_list (map (\<lambda>i. int (length (filter (in_bin vs w i) vs))) [0..<?k])) =
      real (length vs)" by simp
  then have s: "sum_list (map (\<lambda>i. real (length (filter (in_bin vs w i) vs))) [0..<?k]) = real (length vs)"
    by (simp only: real_sum_list_int)
  have "map snd ?ds =
      map (\<lambda>i. Finite (real (length (filter (in_bin vs w i) vs)) / real (length vs) * 100)) [0..<?k]"
    by (simp add: comp_def)
  then have "total_percent ?ds =
      sum_list (map (\<lambda>i. real (length (filter (in_bin vs w i) vs)) / real (length vs) * 100) [0..<?k])"
    unfolding total_percent_def by (simp only: finite_values_Finite)
  also have "\<dots> = 100"
    unfolding sum_list_percent s using ne by simp
  finally have "total_percent ?ds = 100" .
  with calculate_distribution_eq[OF w col pinf ninf vs ne] show ?thesis
    by (intro exI[of _ ?ds] conjI)
qed






section \<open>The claims about the distribution\<close>





lemma constant_series:
  assumes w: "0 < w" and col: "return_col df = Some col"
    and pinf: "PosInf \<notin> set col" and ninf: "NegInf \<notin> set col"
    and ne: "finite_values col \<noteq> []"
    and c: "\<forall>v \<in> set (finite_values col). v = of_int m * w"
  shows "lower_bound (finite_values col) w = of_int m * w"
    and "upper_bound (finite_values col) w = of_int m * w"
    and "np_arange (lower_bound (finite_values col) w) (upper_bound (finite_values col) w + w) w =
           [of_int m * w]"
    and "calculate_distribution (Frame df) w = Inr []"
proof -
  let ?vs = "finite_values col"
  have s: "set ?vs = {of_int m * w}"
  proof
    show "set ?vs \<subseteq> {of_int m * w}" using c by auto
    obtain x xs where "?vs = x # xs" using ne by (cases ?vs) simp_all
    then have "x \<in> set ?vs" by simp
    with c show "{of_int m * w} \<subseteq> set ?vs" by auto
  qed
  have q: "of_int m * w / w = (of_int m :: real)" using w by simp
  show lo: "lower_bound ?vs w = of_int m * w"
    by (simp add: lower_bound_def s q del: times_divide_eq_left)
  show up: "upper_bound ?vs w = of_int m * w"
    by (simp add: upper_bound_def s q del: times_divide_eq_left)
  have k: "number_of_bins ?vs w = 0"
    by (simp add: number_of_bins_def s q del: times_divide_eq_left)
  show "np_arange (lower_bound ?vs w) (upper_bound ?vs w + w) w = [of_int m * w]"
    using np_arange_edges[OF w ne] by (simp add: k edge_def lo)
  show "calculate_distribution (Frame df) w = Inr []"
    using calculate_distribution_eq[OF w col pinf ninf refl ne] by (simp add: k)
qed




lemma flat_prices_returns: "daily_returns flat_prices = [NaN, Finite 0]"
  by (simp add: daily_returns_def times_100_def pct_change_def ffill_def flat_prices_def
      DataFrame_def day1_def)

text \<open>
  Claim C5. The claim asks that the percentages add up to 100 for every series of returns
  that is not empty. The program misses the series whose returns are all the same multiple
  of the bin width: for two candles with the same close the daily returns are NaN and 0,
  both bounds are 0, there is no bin, and the percentages add up to 0.
\<close>

theorem flat_prices_distribution_is_empty:
  "daily_returns flat_prices = [NaN, Finite 0] \<and>
   calculate_distribution (fst (analyze_periodic_distribution cal flat_prices ''daily'')) 1 = Inr [] \<and>
   total_percent [] = 0"
proof -
  have "calculate_distribution (Frame (flat_prices\<lparr>return_col := Some (daily_returns flat_prices)\<rparr>)) 1
      = Inr []"
    by (rule constant_series(4)[where col = "[NaN, Finite 0]" and m = 0])
       (simp_all add: flat_prices_returns finite_values_def)
  then show ?thesis
    by (simp add: analyze_periodic_distribution_def Let_def flat_prices_returns total_percent_def
        finite_values_def)
qed

section \<open>Further facts about the analysis request\<close>

lemma length_ffill_from: "length (ffill_from p xs) = length xs"
  by (induction p xs rule: ffill_from.induct) simp_all

lemma pct_change_not_empty: "xs \<noteq> [] \<Longrightarrow> pct_change xs \<noteq> []"
proof -
  assume "xs \<noteq> []"
  then have "ffill xs \<noteq> []" using length_ffill_from[of NaN xs] by (auto simp: ffill_def)
  then obtain y ys where "ffill xs = y # ys" by (cases "ffill xs") simp_all
  then show ?thesis by (simp add: pct_change_def)
qed

lemma resample_last_not_empty: "rs \<noteq> [] \<Longrightarrow> resample_last bin rs \<noteq> []"
proof -
  assume ne: "rs \<noteq> []"
  let ?bs = "map (\<lambda>c. bin (candle_date_time_kst c)) rs"
  obtain b bs where b: "?bs = b # bs" using ne by (cases rs) simp_all
  have "Min (set (b # bs)) \<le> b" "b \<le> Max (set (b # bs))" by simp_all
  then have "Min (set (b # bs)) \<le> Max (set (b # bs))" by (rule order_trans)
  then have "foldl min (hd ?bs) (tl ?bs) \<le> foldl max (hd ?bs) (tl ?bs)"
    by (simp only: b list.sel foldl_min_Min foldl_max_Max)
  then have "[foldl min (hd ?bs) (tl ?bs)..foldl max (hd ?bs) (tl ?bs)] \<noteq> []"
    by (simp add: upto_Nil)
  then show ?thesis using ne by (simp add: resample_last_def Let_def)
qed

text \<open>
  With any stored candle at all, the weekly and the monthly analysis end in an
  AttributeError: the periodic returns are a Series, which has no \<open>columns\<close>.
\<close>

lemma weekly_monthly_raise:
  assumes "selected_coin \<noteq> []" and "files w (file_name selected_coin) = Some rs" and "rs \<noteq> []"
    and "period = ''weekly'' \<or> period = ''monthly''"
  shows "fst (analyze_and_visualize cal selected_coin period w) = Inl AttributeError"
proof -
  have l: "load_coin_data selected_coin w = (DataFrame rs, w)"
    using assms(2) by (simp add: load_coin_data_def)
  have e: "\<not> empty (DataFrame rs)" using assms(3) by (simp add: empty_def DataFrame_def)
  have r: "rows (DataFrame rs) = rs" by (simp add: DataFrame_def)
  obtain s where s: "fst (analyze_periodic_distribution cal (DataFrame rs) period) = Series s" "s \<noteq> []"
  proof (cases "period = ''weekly''")
    case True
    show ?thesis
      by (rule that[of "times_100 (pct_change (resample_last (week_of cal) rs))"])
         (simp_all add: True analyze_periodic_distribution_def Let_def r times_100_def
            pct_change_not_empty resample_last_not_empty assms(3))
  next
    case False
    with assms(4) have m: "period = ''monthly''" by simp
    show ?thesis
      by (rule that[of "times_100 (pct_change (resample_last (month_of cal) rs))"])
         (simp_all add: m analyze_periodic_distribution_def Let_def r times_100_def
            pct_change_not_empty resample_last_not_empty assms(3))
  qed
  obtain df1 where a: "analyze_periodic_distribution cal (DataFrame rs) period = (Series s, df1)"
    using s(1) by (cases "analyze_periodic_distribution cal (DataFrame rs) period") simp
  have p: "period \<noteq> []" using assms(4) by auto
  show ?thesis
    using assms(1) p e s(2)
    by (simp add: analyze_and_visualize_def l a calculate_distribution_def)
qed

text \<open>With exactly one stored candle the daily analysis ends in a ValueError.\<close>

lemma single_row_daily_raises:
  assumes "selected_coin \<noteq> []" and "files w (file_name selected_coin) = Some [c]"
  shows "fst (analyze_and_visualize cal selected_coin ''daily'' w) = Inl ValueError"
proof -
  have l: "load_coin_data selected_coin w = (DataFrame [c], w)"
    using assms(2) by (simp add: load_coin_data_def)
  have d: "daily_returns (DataFrame [c]) = [NaN]"
    by (simp add: daily_returns_def times_100_def pct_change_def ffill_def DataFrame_def)
  have e: "\<not> empty (DataFrame [c])" "rows (DataFrame [c]) = [c]"
    by (simp_all add: empty_def DataFrame_def)
  show ?thesis
    using assms(1)
    by (simp add: analyze_and_visualize_def l analyze_periodic_distribution_def Let_def d e
        empty_def calculate_distribution_def series_min_def finite_values_def)
qed

end
